theory Spec2Isabelle
  imports Main
begin

section \<open>Data model of \<open>sentinelsat_utils/query.py\<close>\<close>

text \<open>
  Python exceptions are values. \<open>SentinelAPIError\<close> is the one class that
  \<open>loop_query\<close> catches; every other constructor passes through its \<open>try\<close>.
  The string is the exception's message, so that two raised errors can be told apart.
\<close>

datatype error =
    SentinelAPIError string
  | ValueError string
  | TypeError string
  | OverflowError string
  | KeyError string
  | OSError string
  | OtherError string

subsection \<open>Dictionaries\<close>

text \<open>
  A Python \<open>dict\<close> (and an \<open>OrderedDict\<close>) is an association list in insertion order.
  \<open>d[k] = v\<close> replaces the value in place when \<open>k\<close> is present and appends the pair
  otherwise; \<open>d.update(e)\<close> performs \<open>d[k] = v\<close> for the items of \<open>e\<close> in their order.
\<close>

fun setitem :: "'k \<Rightarrow> 'v \<Rightarrow> ('k \<times> 'v) list \<Rightarrow> ('k \<times> 'v) list" where
  "setitem k v [] = [(k, v)]"
| "setitem k v ((k', v') # d) =
     (if k' = k then (k, v) # d else (k', v') # setitem k v d)"

fun dict_update :: "('k \<times> 'v) list \<Rightarrow> ('k \<times> 'v) list \<Rightarrow> ('k \<times> 'v) list" where
  "dict_update d [] = d"
| "dict_update d ((k, v) # e) = dict_update (setitem k v d) e"

text \<open>The keys of a sequence of insertions, each at the place of its first insertion.\<close>

fun first_occurrences :: "'a list \<Rightarrow> 'a list" where
  "first_occurrences [] = []"
| "first_occurrences (x # xs) = x # removeAll x (first_occurrences xs)"

subsection \<open>Date-times\<close>

text \<open>
  A \<open>datetime.datetime\<close> value: the proleptic Gregorian ordinal of its date
  (\<open>toordinal()\<close>, 1 for 0001-01-01), the microseconds since midnight, and the UTC offset
  in microseconds of an aware value (\<open>None\<close> for a naive one).
\<close>

record datetime =
  ordinal :: nat
  usec :: nat
  utcoffset :: "int option"

text \<open>The ordinal of a date, as \<open>_ymd2ord\<close> of the standard library computes it.\<close>

definition is_leap :: "int \<Rightarrow> bool" where
  "is_leap y = (y mod 4 = 0 \<and> (y mod 100 \<noteq> 0 \<or> y mod 400 = 0))"

definition days_before_year :: "int \<Rightarrow> int" where
  "days_before_year year =
     (let y = year - 1 in y * 365 + y div 4 - y div 100 + y div 400)"

definition days_before_month :: "int \<Rightarrow> int \<Rightarrow> int" where
  "days_before_month year month =
     [0, 0, 31, 59, 90, 120, 151, 181, 212, 243, 273, 304, 334] ! nat month
       + (if month > 2 \<and> is_leap year then 1 else 0)"

definition ymd2ord :: "int \<Rightarrow> int \<Rightarrow> int \<Rightarrow> int" where
  "ymd2ord year month day = days_before_year year + days_before_month year month + day"

text \<open>\<open>datetime.datetime(y, m, d)\<close> for a date that exists: midnight, naive.\<close>

definition mk_datetime :: "int \<Rightarrow> int \<Rightarrow> int \<Rightarrow> datetime" where
  "mk_datetime y m d = \<lparr>ordinal = nat (ymd2ord y m d), usec = 0, utcoffset = None\<rparr>"

text \<open>The ordinal of 9999-12-31, \<open>datetime.max.toordinal()\<close>.\<close>

definition MAXORDINAL :: int where
  "MAXORDINAL = 3652059"

text \<open>
  \<open>dt + datetime.timedelta(days=n)\<close>: the time of day and the zone stay; a date outside
  0001-01-01 .. 9999-12-31 raises \<open>OverflowError\<close>.
\<close>

definition add_days :: "datetime \<Rightarrow> int \<Rightarrow> error + datetime" where
  "add_days dt n =
     (if 1 \<le> int (ordinal dt) + n \<and> int (ordinal dt) + n \<le> MAXORDINAL
      then Inr (dt\<lparr>ordinal := nat (int (ordinal dt) + n)\<rparr>)
      else Inl (OverflowError ''date value out of range''))"

text \<open>
  \<open>a < b\<close> on date-times: two naive values compare by date and time of day, two aware
  values by their UTC instants, and a naive with an aware value raises \<open>TypeError\<close>.
\<close>

definition utc_usec :: "datetime \<Rightarrow> int \<Rightarrow> int" where
  "utc_usec dt off = int (ordinal dt) * 86400000000 + int (usec dt) - off"

definition dt_lt :: "datetime \<Rightarrow> datetime \<Rightarrow> error + bool" where
  "dt_lt a b =
     (case (utcoffset a, utcoffset b) of
        (None, None) \<Rightarrow>
          Inr (ordinal a < ordinal b \<or> (ordinal a = ordinal b \<and> usec a < usec b))
      | (Some oa, Some ob) \<Rightarrow> Inr (utc_usec a oa < utc_usec b ob)
      | _ \<Rightarrow> Inl (TypeError ''can't compare offset-naive and offset-aware datetimes''))"

subsection \<open>Query parameters, products, the world\<close>

text \<open>
  A value of a query parameter: a string, a number, or the pair of date-times that the
  aggregators store under \<open>date\<close>. All are immutable.
\<close>

datatype pval = PStr string | PInt int | PDates datetime datetime

type_synonym kwargs = "(string \<times> pval) list"

text \<open>
  The result of \<open>api.query\<close>: product id to product metadata, in the order of the
  server's answer. Metadata is field name to text.
\<close>

type_synonym metadata = "(string \<times> string) list"
type_synonym products = "(string \<times> metadata) list"

text \<open>
  What the module does to the outside, in the order it does it: a call of \<open>api.query\<close>
  with the keyword arguments it got and what it answered, a \<open>time.sleep\<close> with its
  seconds, a record of \<open>logger.info\<close> or \<open>logger.warn\<close> with its arguments, and an
  \<open>os.remove\<close> with its path and whether it succeeded.
\<close>

datatype event =
    EvQuery kwargs "error + products"
  | EvSleep int
  | EvInfo "string list"
  | EvWarn "string list"
  | EvRemove string bool

text \<open>
  The state the module runs in. \<open>api_state\<close> is whatever the external client keeps
  between calls. \<open>heap\<close> holds the parameter dictionaries, which Python passes by
  reference: an address below \<open>next_addr\<close> is an allocated \<open>dict\<close> object.
  \<open>files\<close> maps the path of an existing file to its size and to whether \<open>os.remove\<close>
  succeeds on it.
\<close>

record 's world =
  api_state :: 's
  heap :: "nat \<Rightarrow> kwargs"
  next_addr :: nat
  files :: "(string \<times> nat \<times> bool) list"
  trace :: "event list"

text \<open>
  The external \<open>api.query(**kw)\<close>: from the client's state and the keyword arguments to
  a result collection or a raised error, and the client's next state. The call unpacks the
  dictionary (\<open>**\<close>), so the callee never holds the caller's \<open>dict\<close> object.
\<close>

type_synonym 's api = "'s \<Rightarrow> kwargs \<Rightarrow> (error + products) \<times> 's"

definition emit :: "event \<Rightarrow> 's world \<Rightarrow> 's world" where
  "emit ev w = w\<lparr>trace := trace w @ [ev]\<rparr>"

definition api_query :: "'s api \<Rightarrow> kwargs \<Rightarrow> 's world \<Rightarrow> (error + products) \<times> 's world" where
  "api_query api kw w =
     (case api (api_state w) kw of
        (r, s') \<Rightarrow> (r, emit (EvQuery kw r) (w\<lparr>api_state := s'\<rparr>)))"

text \<open>\<open>d.copy()\<close> allocates a new dictionary with the same items.\<close>

definition dict_copy :: "nat \<Rightarrow> 's world \<Rightarrow> nat \<times> 's world" where
  "dict_copy a w =
     (next_addr w, w\<lparr>heap := (heap w)(next_addr w := heap w a), next_addr := Suc (next_addr w)\<rparr>)"

text \<open>\<open>kw[k] = v\<close> on the dictionary object at address \<open>a\<close>.\<close>

definition dict_setitem :: "nat \<Rightarrow> string \<Rightarrow> pval \<Rightarrow> 's world \<Rightarrow> 's world" where
  "dict_setitem a k v w = w\<lparr>heap := (heap w)(a := setitem k v (heap w a))\<rparr>"

text \<open>The events the module has produced between two states.\<close>

definition events_since :: "'s world \<Rightarrow> 's world \<Rightarrow> event list" where
  "events_since w w' = drop (length (trace w)) (trace w')"

fun query_results :: "event list \<Rightarrow> (error + products) list" where
  "query_results [] = []"
| "query_results (EvQuery kw r # evs) = r # query_results evs"
| "query_results (_ # evs) = query_results evs"

fun query_args :: "event list \<Rightarrow> kwargs list" where
  "query_args [] = []"
| "query_args (EvQuery kw r # evs) = kw # query_args evs"
| "query_args (_ # evs) = query_args evs"

text \<open>The result collections that the calls of \<open>api.query\<close> returned, in call order.\<close>

fun answers :: "event list \<Rightarrow> products list" where
  "answers [] = []"
| "answers (EvQuery kw (Inr pp) # evs) = pp # answers evs"
| "answers (_ # evs) = answers evs"

section \<open>\<open>loop_query\<close>\<close>

text \<open>Python's \<open>str\<close> of an integer, for the log records and for the orbit number.\<close>

fun str_nat :: "nat \<Rightarrow> string" where
  "str_nat n =
     (if n < 10 then [char_of (48 + n)]
      else str_nat (n div 10) @ [char_of (48 + n mod 10)])"

declare str_nat.simps [simp del]

definition str_int :: "int \<Rightarrow> string" where
  "str_int i = (if i < 0 then CHR ''-'' # str_nat (nat (- i)) else str_nat (nat i))"

text \<open>
  \<open>for t in trange(timeout_minutes * 6): time.sleep(10)\<close>: a range of a non-positive
  length is empty.
\<close>

definition wait_minutes :: "int \<Rightarrow> 's world \<Rightarrow> 's world" where
  "wait_minutes timeout_minutes w =
     w\<lparr>trace := trace w @ replicate (nat (timeout_minutes * 6)) (EvSleep 10)\<rparr>"

text \<open>
  The statement after the loop: \<open>if err_reraise is not None: raise err_reraise\<close>; falling
  off the end of the function returns \<open>None\<close>.
\<close>

definition after_loop :: "error option \<Rightarrow> 's world \<Rightarrow> (error + products option) \<times> 's world" where
  "after_loop err_reraise w =
     (case err_reraise of None \<Rightarrow> (Inr None, w) | Some err \<Rightarrow> (Inl err, w))"

text \<open>
  The \<open>for _ in range(max_retries)\<close> loop with \<open>n\<close> iterations left. \<open>query_kwargs\<close> is
  the address of the dictionary, read again at each attempt. \<open>timeout_minutes\<close> is
  \<open>None\<close> or an integer; \<open>not timeout_minutes\<close> holds for \<open>None\<close> and for 0.
\<close>

fun loop_query_from ::
  "'s api \<Rightarrow> nat \<Rightarrow> int option \<Rightarrow> nat \<Rightarrow> error option \<Rightarrow> 's world
    \<Rightarrow> (error + products option) \<times> 's world" where
  "loop_query_from api query_kwargs timeout_minutes 0 err_reraise w = after_loop err_reraise w"
| "loop_query_from api query_kwargs timeout_minutes (Suc n) err_reraise w =
     (case api_query api (heap w query_kwargs) w of
        (Inr r, w1) \<Rightarrow> (Inr (Some r), w1)
      | (Inl (SentinelAPIError m), w1) \<Rightarrow>
          (case timeout_minutes of
             None \<Rightarrow> after_loop (Some (SentinelAPIError m)) w1
           | Some t \<Rightarrow>
               if t = 0 then after_loop (Some (SentinelAPIError m)) w1
               else loop_query_from api query_kwargs timeout_minutes n
                      (Some (SentinelAPIError m))
                      (wait_minutes t
                         (emit (EvInfo [''An exception occurred contacting DHUS (%s). Waiting %d minutes.'',
                                        m, str_int t]) w1)))
      | (Inl err, w1) \<Rightarrow> (Inl err, w1))"

definition loop_query ::
  "'s api \<Rightarrow> nat \<Rightarrow> int \<Rightarrow> int option \<Rightarrow> 's world \<Rightarrow> (error + products option) \<times> 's world" where
  "loop_query api query_kwargs max_retries timeout_minutes w =
     loop_query_from api query_kwargs timeout_minutes (nat max_retries) None w"


section \<open>The aggregators\<close>

text \<open>
  \<open>loop_kwargs\<close> is unpacked into the call of \<open>loop_query\<close>
  (\<open>loop_query(api, query_kwargs=kw, **loop_kwargs)\<close>): a key that is absent leaves the
  parameter at its default, 5 retries and 5 minutes. \<open>lk_timeout_minutes = Some None\<close>
  is the key present with the value \<open>None\<close>.
\<close>

record loop_kwargs =
  lk_max_retries :: "int option"
  lk_timeout_minutes :: "int option option"

definition loop_query_kw ::
  "'s api \<Rightarrow> nat \<Rightarrow> loop_kwargs \<Rightarrow> 's world \<Rightarrow> (error + products option) \<times> 's world" where
  "loop_query_kw api kw lk w =
     loop_query api kw
       (case lk_max_retries lk of None \<Rightarrow> 5 | Some n \<Rightarrow> n)
       (case lk_timeout_minutes lk of None \<Rightarrow> Some 5 | Some t \<Rightarrow> t) w"

text \<open>
  \<open>dateutil.parser.parse\<close> is external: a parameter \<open>parse\<close> from the date string to a
  date-time or the error it raises.
\<close>

type_synonym parser = "string \<Rightarrow> error + datetime"

subsection \<open>\<open>query_tiles_dates\<close>\<close>

text \<open>The body of the inner loop, lines 66 to 79, for one tile and one date string.\<close>

definition tiles_dates_body ::
  "'s api \<Rightarrow> parser \<Rightarrow> nat \<Rightarrow> loop_kwargs \<Rightarrow> string \<Rightarrow> string \<Rightarrow> products \<Rightarrow> 's world
    \<Rightarrow> (error + products) \<times> 's world" where
  "tiles_dates_body api parse query_kwargs lk tile date products w =
     (case dict_copy query_kwargs w of (kw, w1) \<Rightarrow>
      case parse date of Inl err \<Rightarrow> (Inl err, w1) | Inr start_date \<Rightarrow>
      case add_days start_date 1 of Inl err \<Rightarrow> (Inl err, w1) | Inr end_date \<Rightarrow>
      let w2 = dict_setitem kw ''date'' (PDates start_date end_date) w1 in
      case dt_lt start_date (mk_datetime 2016 11 1) of
        Inl err \<Rightarrow> (Inl err, w2)
      | Inr True \<Rightarrow>
          (Inl (ValueError ''Search by tile works only for single-tile (past 11/2016) format.''), w2)
      | Inr False \<Rightarrow>
          (case dt_lt start_date (mk_datetime 2017 3 31) of
             Inl err \<Rightarrow> (Inl err, w2)
           | Inr before \<Rightarrow>
               let w3 = (if before
                         then dict_setitem kw ''filename'' (PStr (''*_T'' @ tile @ ''_*'')) w2
                         else dict_setitem kw ''tileid'' (PStr tile) w2) in
               case loop_query_kw api kw lk w3 of
                 (Inl err, w4) \<Rightarrow> (Inl err, w4)
               | (Inr None, w4) \<Rightarrow> (Inl (TypeError ''object of type 'NoneType' has no len()''), w4)
               | (Inr (Some pp), w4) \<Rightarrow>
                   (Inr (dict_update products pp),
                    emit (EvInfo [''   -- date %s (%d)'', date, str_nat (length pp)]) w4)))"

text \<open>\<open>for date in tiles_dates[tile]\<close>: an error ends the loop and the call.\<close>

fun tiles_dates_inner ::
  "'s api \<Rightarrow> parser \<Rightarrow> nat \<Rightarrow> loop_kwargs \<Rightarrow> string \<Rightarrow> string list \<Rightarrow> products \<Rightarrow> 's world
    \<Rightarrow> (error + products) \<times> 's world" where
  "tiles_dates_inner api parse query_kwargs lk tile [] products w = (Inr products, w)"
| "tiles_dates_inner api parse query_kwargs lk tile (date # dates) products w =
     (case tiles_dates_body api parse query_kwargs lk tile date products w of
        (Inl err, w') \<Rightarrow> (Inl err, w')
      | (Inr products', w') \<Rightarrow>
          tiles_dates_inner api parse query_kwargs lk tile dates products' w')"

text \<open>
  \<open>for tile in tiles_dates\<close> over the keys of the dictionary in its order, with the
  lookup \<open>tiles_dates[tile]\<close> of each key.
\<close>

fun tiles_dates_outer ::
  "'s api \<Rightarrow> parser \<Rightarrow> (string \<times> string list) list \<Rightarrow> nat \<Rightarrow> loop_kwargs \<Rightarrow> string list
    \<Rightarrow> products \<Rightarrow> 's world \<Rightarrow> (error + products) \<times> 's world" where
  "tiles_dates_outer api parse tiles_dates query_kwargs lk [] products w = (Inr products, w)"
| "tiles_dates_outer api parse tiles_dates query_kwargs lk (tile # tiles) products w =
     (let w1 = emit (EvInfo [''-- tile %s'', tile]) w in
      case map_of tiles_dates tile of
        None \<Rightarrow> (Inl (KeyError tile), w1)
      | Some dates \<Rightarrow>
          (case tiles_dates_inner api parse query_kwargs lk tile dates products w1 of
             (Inl err, w') \<Rightarrow> (Inl err, w')
           | (Inr products', w') \<Rightarrow>
               tiles_dates_outer api parse tiles_dates query_kwargs lk tiles products' w'))"

definition query_tiles_dates ::
  "'s api \<Rightarrow> parser \<Rightarrow> (string \<times> string list) list \<Rightarrow> nat \<Rightarrow> loop_kwargs \<Rightarrow> 's world
    \<Rightarrow> (error + products) \<times> 's world" where
  "query_tiles_dates api parse tiles_dates query_kwargs lk w =
     tiles_dates_outer api parse tiles_dates query_kwargs lk (map fst tiles_dates) [] w"

subsection \<open>\<open>query_dates\<close>\<close>

definition dates_body ::
  "'s api \<Rightarrow> parser \<Rightarrow> nat \<Rightarrow> loop_kwargs \<Rightarrow> string \<Rightarrow> products \<Rightarrow> 's world
    \<Rightarrow> (error + products) \<times> 's world" where
  "dates_body api parse query_kwargs lk date products w =
     (case dict_copy query_kwargs w of (kw, w1) \<Rightarrow>
      case parse date of Inl err \<Rightarrow> (Inl err, w1) | Inr start_date \<Rightarrow>
      case add_days start_date 1 of Inl err \<Rightarrow> (Inl err, w1) | Inr end_date \<Rightarrow>
      let w2 = dict_setitem kw ''date'' (PDates start_date end_date) w1 in
      case loop_query_kw api kw lk w2 of
        (Inl err, w3) \<Rightarrow> (Inl err, w3)
      | (Inr None, w3) \<Rightarrow> (Inl (TypeError ''object of type 'NoneType' has no len()''), w3)
      | (Inr (Some pp), w3) \<Rightarrow>
          (Inr (dict_update products pp),
           emit (EvInfo [''   -- date %s (%d)'', date, str_nat (length pp)]) w3))"

fun query_dates_from ::
  "'s api \<Rightarrow> parser \<Rightarrow> nat \<Rightarrow> loop_kwargs \<Rightarrow> string list \<Rightarrow> products \<Rightarrow> 's world
    \<Rightarrow> (error + products) \<times> 's world" where
  "query_dates_from api parse query_kwargs lk [] products w = (Inr products, w)"
| "query_dates_from api parse query_kwargs lk (date # dates) products w =
     (case dates_body api parse query_kwargs lk date products w of
        (Inl err, w') \<Rightarrow> (Inl err, w')
      | (Inr products', w') \<Rightarrow> query_dates_from api parse query_kwargs lk dates products' w')"

definition query_dates ::
  "'s api \<Rightarrow> parser \<Rightarrow> string list \<Rightarrow> nat \<Rightarrow> loop_kwargs \<Rightarrow> 's world
    \<Rightarrow> (error + products) \<times> 's world" where
  "query_dates api parse dates query_kwargs lk w =
     query_dates_from api parse query_kwargs lk dates [] w"

subsection \<open>\<open>query_rel_orbit_numbers\<close>\<close>

text \<open>
  Here the result of \<open>loop_query\<close> goes to \<open>products.update\<close> with no \<open>len\<close> before it;
  \<open>update(None)\<close> raises \<open>TypeError\<close> as well.
\<close>

definition rel_orbit_body ::
  "'s api \<Rightarrow> nat \<Rightarrow> loop_kwargs \<Rightarrow> int \<Rightarrow> products \<Rightarrow> 's world
    \<Rightarrow> (error + products) \<times> 's world" where
  "rel_orbit_body api query_kwargs lk ron products w =
     (case dict_copy query_kwargs w of (kw, w1) \<Rightarrow>
      let w2 = dict_setitem kw ''relativeorbitnumber'' (PStr (str_int ron)) w1 in
      case loop_query_kw api kw lk w2 of
        (Inl err, w3) \<Rightarrow> (Inl err, w3)
      | (Inr None, w3) \<Rightarrow> (Inl (TypeError '''NoneType' object is not iterable''), w3)
      | (Inr (Some pp), w3) \<Rightarrow> (Inr (dict_update products pp), w3))"

fun query_rel_orbit_numbers_from ::
  "'s api \<Rightarrow> nat \<Rightarrow> loop_kwargs \<Rightarrow> int list \<Rightarrow> products \<Rightarrow> 's world
    \<Rightarrow> (error + products) \<times> 's world" where
  "query_rel_orbit_numbers_from api query_kwargs lk [] products w = (Inr products, w)"
| "query_rel_orbit_numbers_from api query_kwargs lk (ron # rons) products w =
     (case rel_orbit_body api query_kwargs lk ron products w of
        (Inl err, w') \<Rightarrow> (Inl err, w')
      | (Inr products', w') \<Rightarrow>
          query_rel_orbit_numbers_from api query_kwargs lk rons products' w')"

definition query_rel_orbit_numbers ::
  "'s api \<Rightarrow> int list \<Rightarrow> nat \<Rightarrow> loop_kwargs \<Rightarrow> 's world \<Rightarrow> (error + products) \<times> 's world" where
  "query_rel_orbit_numbers api rel_orbit_numbers query_kwargs lk w =
     query_rel_orbit_numbers_from api query_kwargs lk rel_orbit_numbers [] w"

section \<open>\<open>delete_empty\<close>\<close>

text \<open>
  \<open>os.path.getsize\<close> raises \<open>OSError\<close> on a path that does not exist. \<open>os.remove\<close>
  raises \<open>OSError\<close> on a path that does not exist or that may not be removed, and
  removes the file otherwise. Each attempt is recorded with its success.
\<close>

definition getsize :: "string \<Rightarrow> 's world \<Rightarrow> error + nat" where
  "getsize path w =
     (case map_of (files w) path of
        None \<Rightarrow> Inl (OSError ''No such file or directory'')
      | Some (sz, removable) \<Rightarrow> Inr sz)"

definition os_remove :: "string \<Rightarrow> 's world \<Rightarrow> (error + unit) \<times> 's world" where
  "os_remove path w =
     (case map_of (files w) path of
        None \<Rightarrow> (Inl (OSError ''No such file or directory''), emit (EvRemove path False) w)
      | Some (sz, removable) \<Rightarrow>
          if removable
          then (Inr (), emit (EvRemove path True)
                          (w\<lparr>files := filter (\<lambda>f. fst f \<noteq> path) (files w)\<rparr>))
          else (Inl (OSError ''Permission denied''), emit (EvRemove path False) w))"

text \<open>
  \<open>for key in results\<close> over the keys that are left, with the lookups \<open>results[key]\<close>
  and \<open>[...]['path']\<close>. Only an \<open>OSError\<close> of \<open>os.remove\<close> is caught.
\<close>

fun delete_empty_from :: "string list \<Rightarrow> products \<Rightarrow> 's world \<Rightarrow> (error + unit) \<times> 's world" where
  "delete_empty_from [] results w = (Inr (), w)"
| "delete_empty_from (key # keys) results w =
     (case map_of results key of
        None \<Rightarrow> (Inl (KeyError key), w)
      | Some md \<Rightarrow>
          (case map_of md ''path'' of
             None \<Rightarrow> (Inl (KeyError ''path''), w)
           | Some zipfile \<Rightarrow>
               (case getsize zipfile w of
                  Inl err \<Rightarrow> (Inl err, w)
                | Inr sz \<Rightarrow>
                    if sz = 0 then
                      (case os_remove zipfile w of
                         (Inr u, w1) \<Rightarrow> delete_empty_from keys results w1
                       | (Inl (OSError m), w1) \<Rightarrow>
                           delete_empty_from keys results
                             (emit (EvWarn [''Download produced empty file: '%s' that could not be deleted.'',
                                            zipfile]) w1)
                       | (Inl err, w1) \<Rightarrow> (Inl err, w1))
                    else delete_empty_from keys results w)))"

definition delete_empty :: "products \<Rightarrow> 's world \<Rightarrow> (error + unit) \<times> 's world" where
  "delete_empty results w = delete_empty_from (map fst results) results w"


section \<open>Concrete inputs\<close>

text \<open>
  A world with one allocated parameter dictionary at address 0, and two stand-ins for
  the external client: one that raises \<open>SentinelAPIError\<close> on every call, with the
  number of earlier calls in the message, and one that plays a script of answers.
\<close>

definition base_kwargs :: kwargs where
  "base_kwargs = [(''platformname'', PStr ''Sentinel-2'')]"

definition world0 :: "'s \<Rightarrow> 's world" where
  "world0 s = \<lparr>api_state = s, heap = (\<lambda>a. [])(0 := base_kwargs), next_addr = 1,
               files = [], trace = []\<rparr>"

definition failing_api :: "nat api" where
  "failing_api n kw = (Inl (SentinelAPIError (replicate n CHR ''I'')), Suc n)"

definition scripted_api :: "((error + products) list) api" where
  "scripted_api script kw =
     (case script of [] \<Rightarrow> (Inl (OtherError ''no answer left''), [])
      | r # rs \<Rightarrow> (r, rs))"

text \<open>
  A stand-in for \<open>dateutil.parser.parse\<close> that knows the dates of the examples, one of
  them with a time zone.
\<close>

definition example_parse :: parser where
  "example_parse s =
     (if s = ''2016-06-01'' then Inr (mk_datetime 2016 6 1)
      else if s = ''2017-01-15'' then Inr (mk_datetime 2017 1 15)
      else if s = ''2017-06-01'' then Inr (mk_datetime 2017 6 1)
      else if s = ''2017-06-01T00:00:00Z'' then Inr ((mk_datetime 2017 6 1)\<lparr>utcoffset := Some 0\<rparr>)
      else Inl (ValueError ''Unknown string format''))"

definition no_loop_kwargs :: loop_kwargs where
  "no_loop_kwargs = \<lparr>lk_max_retries = None, lk_timeout_minutes = None\<rparr>"

text \<open>The answers of the merge example: \<open>{A: x}\<close>, then \<open>{A: y, B: z}\<close>.\<close>

definition merge_script :: "(error + products) list" where
  "merge_script = [Inr [(''A'', [(''title'', ''x'')])],
                   Inr [(''A'', [(''title'', ''y'')]), (''B'', [(''title'', ''z'')])]]"

text \<open>
  The path that a result collection records for a key (\<open>results[key]['path']\<close>, when both
  lookups succeed), and the recorded paths in the order of the collection.
\<close>

definition path_of :: "products \<Rightarrow> string \<Rightarrow> string option" where
  "path_of results key =
     (case map_of results key of None \<Rightarrow> None | Some md \<Rightarrow> map_of md ''path'')"

definition recorded_paths :: "products \<Rightarrow> string list" where
  "recorded_paths results = List.map_filter (path_of results) (map fst results)"

text \<open>The calls of \<open>os.remove\<close> with their success, and the warnings, in the order made.\<close>

fun removals :: "event list \<Rightarrow> (string \<times> bool) list" where
  "removals [] = []"
| "removals (EvRemove path ok # evs) = (path, ok) # removals evs"
| "removals (_ # evs) = removals evs"

fun warnings :: "event list \<Rightarrow> string list list" where
  "warnings [] = []"
| "warnings (EvWarn args # evs) = args # warnings evs"
| "warnings (_ # evs) = warnings evs"

text \<open>
  Three downloaded products: an empty file that cannot be removed, a file with content,
  and an empty file.
\<close>

definition cleanup_results :: products where
  "cleanup_results = [(''p1'', [(''path'', ''a.zip'')]),
                      (''p2'', [(''path'', ''b.zip'')]),
                      (''p3'', [(''path'', ''c.zip'')])]"

definition cleanup_world :: "unit world" where
  "cleanup_world = \<lparr>api_state = (), heap = (\<lambda>a. []), next_addr = 0,
     files = [(''a.zip'', 0, False), (''b.zip'', 1024, True), (''c.zip'', 0, True)],
     trace = []\<rparr>"




section \<open>Properties of \<open>loop_query\<close>\<close>



lemma events_since_self [simp]: "events_since w w = []"
  by (simp add: events_since_def)

lemma query_results_append [simp]:
  "query_results (xs @ ys) = query_results xs @ query_results ys"
  by (induction xs rule: query_results.induct) simp_all

lemma query_args_append [simp]:
  "query_args (xs @ ys) = query_args xs @ query_args ys"
  by (induction xs rule: query_args.induct) simp_all

lemma answers_append [simp]: "answers (xs @ ys) = answers xs @ answers ys"
  by (induction xs rule: answers.induct) simp_all

lemma answers_replicate_sleep [simp]: "answers (replicate n (EvSleep k)) = []"
  by (induction n) simp_all

lemma query_results_replicate_sleep [simp]: "query_results (replicate n (EvSleep k)) = []"
  by (induction n) simp_all

lemma query_args_replicate_sleep [simp]: "query_args (replicate n (EvSleep k)) = []"
  by (induction n) simp_all

text \<open>What a run of the loop adds to the trace, and what it leaves as it was.\<close>

lemma after_loop_world [simp]: "snd (after_loop err w) = w"
  by (simp add: after_loop_def split: option.splits)

lemma after_loop_Some [simp]: "after_loop (Some e) w = (Inl e, w)"
  by (simp add: after_loop_def)

lemma after_loop_None [simp]: "after_loop None w = (Inr None, w)"
  by (simp add: after_loop_def)

lemma loop_query_from_fail_all:
  assumes fail: "\<And>s kw. \<exists>m s'. api s kw = (Inl (SentinelAPIError m), s')"
    and t: "t \<noteq> 0"
  shows "\<exists>new m. trace (snd (loop_query_from api qk (Some t) (Suc n) err w)) = trace w @ new
           \<and> length (query_results new) = Suc n
           \<and> last (query_results new) = Inl (SentinelAPIError m)
           \<and> fst (loop_query_from api qk (Some t) (Suc n) err w) = Inl (SentinelAPIError m)"
proof (induction n arbitrary: err w)
  case 0
  obtain m s' where q: "api (api_state w) (heap w qk) = (Inl (SentinelAPIError m), s')"
    using fail by blast
  show ?case using t q
    by (simp add: api_query_def emit_def wait_minutes_def)
next
  case (Suc n)
  obtain m s' where q: "api (api_state w) (heap w qk) = (Inl (SentinelAPIError m), s')"
    using fail by blast
  define w2 where "w2 = wait_minutes t
      (emit (EvInfo [''An exception occurred contacting DHUS (%s). Waiting %d minutes.'', m, str_int t])
         (emit (EvQuery (heap w qk) (Inl (SentinelAPIError m))) (w\<lparr>api_state := s'\<rparr>)))"
  have step: "loop_query_from api qk (Some t) (Suc (Suc n)) err w
      = loop_query_from api qk (Some t) (Suc n) (Some (SentinelAPIError m)) w2"
    using t q by (simp add: api_query_def w2_def)
  obtain new m' where ih: "trace (snd (loop_query_from api qk (Some t) (Suc n) (Some (SentinelAPIError m)) w2)) = trace w2 @ new"
    "length (query_results new) = Suc n"
    "last (query_results new) = Inl (SentinelAPIError m')"
    "fst (loop_query_from api qk (Some t) (Suc n) (Some (SentinelAPIError m)) w2) = Inl (SentinelAPIError m')"
    using Suc.IH by blast
  have tr2: "trace w2 = trace w @ EvQuery (heap w qk) (Inl (SentinelAPIError m)) #
       EvInfo [''An exception occurred contacting DHUS (%s). Waiting %d minutes.'', m, str_int t] #
       replicate (nat (t * 6)) (EvSleep 10)"
    by (simp add: w2_def wait_minutes_def emit_def)
  have ne: "query_results new \<noteq> []" using ih(2) by auto
  show ?case
    apply (rule exI[of _ "EvQuery (heap w qk) (Inl (SentinelAPIError m)) #
       EvInfo [''An exception occurred contacting DHUS (%s). Waiting %d minutes.'', m, str_int t] #
       replicate (nat (t * 6)) (EvSleep 10) @ new"])
    apply (rule exI[of _ m'])
    using ih ne by (simp only: step tr2) simp
qed

lemma loop_query_from_frame:
  "loop_query_from api qk tm n err w = (r, w') \<Longrightarrow>
     \<exists>new. heap w' = heap w \<and> next_addr w' = next_addr w \<and> files w' = files w
       \<and> trace w' = trace w @ new
       \<and> set (query_args new) \<subseteq> {heap w qk}
       \<and> answers new = (case r of Inr (Some res) \<Rightarrow> [res] | _ \<Rightarrow> [])
       \<and> (\<forall>kw e. EvQuery kw (Inl e) \<in> set new \<longrightarrow> (\<forall>m. e \<noteq> SentinelAPIError m) \<longrightarrow>
             r = Inl e \<and> last new = EvQuery kw (Inl e))"
proof (induction n arbitrary: err w)
  case 0
  then have "w' = w" "r = Inr None \<or> (\<exists>e. r = Inl e)"
    by (auto simp: after_loop_def split: option.splits)
  then show ?case by auto
next
  case (Suc n)
  obtain q s' where q: "api (api_state w) (heap w qk) = (q, s')" by (cases "api (api_state w) (heap w qk)")
  define w1 where "w1 = emit (EvQuery (heap w qk) q) (w\<lparr>api_state := s'\<rparr>)"
  have aq: "api_query api (heap w qk) w = (q, w1)" by (simp add: api_query_def q w1_def)
  have w1: "heap w1 = heap w" "next_addr w1 = next_addr w" "files w1 = files w"
      "trace w1 = trace w @ [EvQuery (heap w qk) q]"
    by (simp_all add: w1_def emit_def)
  show ?case
  proof (cases q)
    case (Inr res)
    with Suc.prems aq have "w' = w1" "r = Inr (Some res)" by auto
    with w1 Inr show ?thesis by simp
  next
    case (Inl e)
    show ?thesis
    proof (cases "\<exists>m. e = SentinelAPIError m")
      case False
      with Suc.prems aq Inl have "w' = w1" "r = Inl e" by (auto split: error.splits)
      with w1 Inl show ?thesis by simp
    next
      case True
      then obtain m where m: "e = SentinelAPIError m" by blast
      show ?thesis
      proof (cases "tm = None \<or> tm = Some 0")
        case True
        with Suc.prems aq Inl m have "w' = w1" "r = Inl e" by auto
        with w1 Inl m show ?thesis by simp
      next
        case False
        then obtain t where t: "tm = Some t" "t \<noteq> 0" by auto
        define w2 where "w2 = wait_minutes t
          (emit (EvInfo [''An exception occurred contacting DHUS (%s). Waiting %d minutes.'', m, str_int t]) w1)"
        define pre where "pre = EvQuery (heap w qk) q #
            EvInfo [''An exception occurred contacting DHUS (%s). Waiting %d minutes.'', m, str_int t] #
            replicate (nat (t * 6)) (EvSleep 10)"
        have w2: "heap w2 = heap w" "next_addr w2 = next_addr w" "files w2 = files w"
            "trace w2 = trace w @ pre"
          by (simp_all add: w2_def pre_def wait_minutes_def emit_def w1)
        have rec: "loop_query_from api qk tm n (Some e) w2 = (r, w')"
          using Suc.prems aq Inl m t by (simp add: w2_def)
        from Suc.IH[OF rec] obtain new where new:
          "heap w' = heap w2" "next_addr w' = next_addr w2" "files w' = files w2"
          "trace w' = trace w2 @ new"
          "set (query_args new) \<subseteq> {heap w2 qk}"
          "answers new = (case r of Inr (Some res) \<Rightarrow> [res] | _ \<Rightarrow> [])"
          "\<forall>kw e. EvQuery kw (Inl e) \<in> set new \<longrightarrow> (\<forall>m. e \<noteq> SentinelAPIError m) \<longrightarrow>
             r = Inl e \<and> last new = EvQuery kw (Inl e)"
          by blast
        have a: "trace w' = trace w @ pre @ new"
          using new(4) w2(4) by simp
        have b: "set (query_args (pre @ new)) \<subseteq> {heap w qk}"
          using new(5) w2(1) by (auto simp: pre_def)
        have c: "\<forall>kw e'. EvQuery kw (Inl e') \<in> set (pre @ new) \<longrightarrow> (\<forall>m. e' \<noteq> SentinelAPIError m) \<longrightarrow>
             r = Inl e' \<and> last (pre @ new) = EvQuery kw (Inl e')"
        proof (intro allI impI)
          fix kw e' assume mem: "EvQuery kw (Inl e') \<in> set (pre @ new)" and nr: "\<forall>m. e' \<noteq> SentinelAPIError m"
          have "EvQuery kw (Inl e') \<notin> set pre" using nr Inl m by (auto simp: pre_def)
          with mem have in_new: "EvQuery kw (Inl e') \<in> set new" by simp
          with new(7) nr have "r = Inl e'" "last new = EvQuery kw (Inl e')" by blast+
          moreover have "new \<noteq> []" using in_new by auto
          ultimately show "r = Inl e' \<and> last (pre @ new) = EvQuery kw (Inl e')" by simp
        qed
        have d: "answers (pre @ new) = (case r of Inr (Some res) \<Rightarrow> [res] | _ \<Rightarrow> [])"
          using new(6) Inl by (simp add: pre_def)
        from a b c d new(1-3) w2(1-3) show ?thesis by metis
      qed
    qed
  qed
qed

text \<open>
  Claim C1. When every call of the query operation raises \<open>SentinelAPIError\<close>,
  \<open>max_retries\<close> is at least 1 and \<open>timeout_minutes\<close> is a non-zero number,
  \<open>loop_query\<close> calls the query operation exactly \<open>max_retries\<close> times and raises the
  error that the last of these calls raised.
\<close>

theorem loop_query_exhausts_retries:
  assumes "\<forall>s kw. \<exists>m s'. api s kw = (Inl (SentinelAPIError m), s')"
    and "1 \<le> max_retries" and "timeout_minutes \<noteq> 0"
  shows "\<exists>m. fst (loop_query api query_kwargs max_retries (Some timeout_minutes) w)
                = Inl (SentinelAPIError m)
          \<and> last (query_results (events_since w
                (snd (loop_query api query_kwargs max_retries (Some timeout_minutes) w))))
                = Inl (SentinelAPIError m)
          \<and> int (length (query_results (events_since w
                (snd (loop_query api query_kwargs max_retries (Some timeout_minutes) w)))))
                = max_retries"
proof -
  obtain n where n: "nat max_retries = Suc n"
    using assms(2) by (cases "nat max_retries") auto
  from loop_query_from_fail_all[of api timeout_minutes query_kwargs n None w] assms(1,3)
  obtain new m where
    "trace (snd (loop_query_from api query_kwargs (Some timeout_minutes) (Suc n) None w)) = trace w @ new"
    "length (query_results new) = Suc n"
    "last (query_results new) = Inl (SentinelAPIError m)"
    "fst (loop_query_from api query_kwargs (Some timeout_minutes) (Suc n) None w) = Inl (SentinelAPIError m)"
    by blast
  then show ?thesis
    using n assms(2) by (auto simp: loop_query_def events_since_def)
qed

theorem loop_query_exhausts_retries_witness:
  "(\<forall>s kw. \<exists>m s'. failing_api s kw = (Inl (SentinelAPIError m), s'))
   \<and> (1::int) \<le> 3 \<and> (2::int) \<noteq> 0
   \<and> fst (loop_query failing_api 0 3 (Some 2) (world0 (0::nat))) = Inl (SentinelAPIError ''II'')
   \<and> int (length (query_results (events_since (world0 (0::nat))
         (snd (loop_query failing_api 0 3 (Some 2) (world0 (0::nat))))))) = 3"
proof -
  have h: "\<forall>s kw. \<exists>m s'. failing_api s kw = (Inl (SentinelAPIError m), s')"
    by (simp add: failing_api_def)
  have r: "fst (loop_query failing_api 0 3 (Some 2) (world0 (0::nat))) = Inl (SentinelAPIError ''II'')"
    by (simp add: loop_query_def eval_nat_numeral api_query_def failing_api_def world0_def
        emit_def wait_minutes_def)
  from loop_query_exhausts_retries[OF h, of 3 2 0 "world0 (0::nat)"] h r
  show ?thesis by auto
qed

text \<open>
  Claim C2. With \<open>max_retries\<close> at least 1 and \<open>timeout_minutes\<close> \<open>None\<close> or 0, a
  \<open>SentinelAPIError\<close> of the first call is raised again at once: the only thing
  \<open>loop_query\<close> has done is that one call; there is no second call, no sleep and no
  log record.
\<close>

theorem loop_query_no_timeout_single_attempt:
  assumes "1 \<le> max_retries"
    and "timeout_minutes = None \<or> timeout_minutes = Some 0"
    and "api (api_state w) (heap w query_kwargs) = (Inl (SentinelAPIError m), s')"
  shows "loop_query api query_kwargs max_retries timeout_minutes w =
           (Inl (SentinelAPIError m),
            w\<lparr>api_state := s',
              trace := trace w @ [EvQuery (heap w query_kwargs) (Inl (SentinelAPIError m))]\<rparr>)"
proof -
  obtain n where n: "nat max_retries = Suc n"
    using assms(1) by (cases "nat max_retries") auto
  show ?thesis
    using assms(2,3) by (auto simp: loop_query_def n api_query_def emit_def)
qed

theorem loop_query_no_timeout_single_attempt_witness:
  "(1::int) \<le> 5 \<and> failing_api (api_state (world0 (0::nat))) (heap (world0 (0::nat)) 0)
       = (Inl (SentinelAPIError []), Suc 0)
   \<and> loop_query failing_api 0 5 None (world0 (0::nat)) =
         (Inl (SentinelAPIError []),
          (world0 (0::nat))\<lparr>api_state := Suc 0,
            trace := trace (world0 (0::nat)) @ [EvQuery (heap (world0 (0::nat)) 0) (Inl (SentinelAPIError []))]\<rparr>)"
proof -
  have h: "failing_api (api_state (world0 (0::nat))) (heap (world0 (0::nat)) 0)
       = (Inl (SentinelAPIError []), Suc 0)"
    by (simp add: failing_api_def world0_def)
  have le: "(1::int) \<le> 5" by simp
  have tm: "(None :: int option) = None \<or> (None :: int option) = Some 0" by simp
  note run = loop_query_no_timeout_single_attempt[where max_retries = 5 and timeout_minutes = None
      and api = failing_api and w = "world0 (0::nat)" and query_kwargs = 0 and m = "[]" and s' = "Suc 0",
      OF le tm h]
  show ?thesis by (rule conjI[OF le conjI[OF h run]])
qed

text \<open>
  Claim C6. With \<open>max_retries\<close> at least 1, when the first call of the query operation
  returns a result collection, \<open>loop_query\<close> returns that collection as it is, and the
  only thing it has done is that one call: no sleep and no further call.
\<close>

theorem loop_query_first_success:
  assumes "1 \<le> max_retries"
    and "api (api_state w) (heap w query_kwargs) = (Inr res, s')"
  shows "loop_query api query_kwargs max_retries timeout_minutes w =
           (Inr (Some res),
            w\<lparr>api_state := s', trace := trace w @ [EvQuery (heap w query_kwargs) (Inr res)]\<rparr>)"
proof -
  obtain n where n: "nat max_retries = Suc n"
    using assms(1) by (cases "nat max_retries") auto
  show ?thesis
    using assms(2) by (simp add: loop_query_def n api_query_def emit_def)
qed

theorem loop_query_first_success_witness:
  "(1::int) \<le> 5
   \<and> scripted_api (api_state (world0 [Inr [(''id1'', [])] :: error + products])) (heap (world0 [Inr [(''id1'', [])] :: error + products]) 0)
       = (Inr [(''id1'', [])], [])
   \<and> loop_query scripted_api 0 5 (Some 5) (world0 [Inr [(''id1'', [])] :: error + products]) =
         (Inr (Some [(''id1'', [])]),
          (world0 [Inr [(''id1'', [])] :: error + products])\<lparr>api_state := [],
            trace := trace (world0 [Inr [(''id1'', [])] :: error + products])
                       @ [EvQuery (heap (world0 [Inr [(''id1'', [])] :: error + products]) 0) (Inr [(''id1'', [])])]\<rparr>)"
proof -
  have h: "scripted_api (api_state (world0 [Inr [(''id1'', [])] :: error + products])) (heap (world0 [Inr [(''id1'', [])] :: error + products]) 0)
       = (Inr [(''id1'', [])], [])"
    by (simp add: scripted_api_def world0_def)
  have le: "(1::int) \<le> 5" by simp
  note run = loop_query_first_success[where max_retries = 5 and timeout_minutes = "Some 5"
      and api = scripted_api and w = "world0 [Inr [(''id1'', [])] :: error + products]" and query_kwargs = 0
      and res = "[(''id1'', [])]" and s' = "[]", OF le h]
  show ?thesis by (rule conjI[OF le conjI[OF h run]])
qed

text \<open>
  Claim C7. Whatever \<open>max_retries\<close> and \<open>timeout_minutes\<close> are: when a call of the
  query operation inside \<open>loop_query\<close> raises an error other than
  \<open>SentinelAPIError\<close>, then \<open>loop_query\<close> raises that error, and that call is the last
  thing it did: no call and no sleep comes after it.
\<close>

theorem loop_query_other_error_propagates:
  assumes "loop_query api query_kwargs max_retries timeout_minutes w = (r, w')"
    and "EvQuery kw (Inl err) \<in> set (events_since w w')"
    and "\<forall>m. err \<noteq> SentinelAPIError m"
  shows "r = Inl err \<and> last (events_since w w') = EvQuery kw (Inl err)"
proof -
  from loop_query_from_frame[OF assms(1)[unfolded loop_query_def]]
  obtain new where new: "trace w' = trace w @ new"
    "\<forall>kw e. EvQuery kw (Inl e) \<in> set new \<longrightarrow> (\<forall>m. e \<noteq> SentinelAPIError m) \<longrightarrow>
             r = Inl e \<and> last new = EvQuery kw (Inl e)"
    by blast
  have "events_since w w' = new" by (simp add: events_since_def new(1))
  with new(2) assms(2,3) show ?thesis by blast
qed

theorem loop_query_other_error_propagates_witness:
  "EvQuery base_kwargs (Inl (OtherError ''boom''))
     \<in> set (events_since (world0 [Inl (SentinelAPIError ''busy''), Inl (OtherError ''boom''), Inr [] :: error + products])
          (snd (loop_query scripted_api 0 5 (Some 1)
             (world0 [Inl (SentinelAPIError ''busy''), Inl (OtherError ''boom''), Inr [] :: error + products]))))
   \<and> (\<forall>m. OtherError ''boom'' \<noteq> SentinelAPIError m)
   \<and> fst (loop_query scripted_api 0 5 (Some 1)
             (world0 [Inl (SentinelAPIError ''busy''), Inl (OtherError ''boom''), Inr [] :: error + products]))
       = Inl (OtherError ''boom'')
   \<and> last (events_since (world0 [Inl (SentinelAPIError ''busy''), Inl (OtherError ''boom''), Inr [] :: error + products])
          (snd (loop_query scripted_api 0 5 (Some 1)
             (world0 [Inl (SentinelAPIError ''busy''), Inl (OtherError ''boom''), Inr [] :: error + products]))))
       = EvQuery base_kwargs (Inl (OtherError ''boom''))"
proof -
  let ?w = "world0 [Inl (SentinelAPIError ''busy''), Inl (OtherError ''boom''), Inr [] :: error + products]"
  have run: "loop_query scripted_api 0 5 (Some 1) ?w =
      (fst (loop_query scripted_api 0 5 (Some 1) ?w), snd (loop_query scripted_api 0 5 (Some 1) ?w))"
    by simp
  have mem: "EvQuery base_kwargs (Inl (OtherError ''boom''))
     \<in> set (events_since ?w (snd (loop_query scripted_api 0 5 (Some 1) ?w)))"
    by (simp add: loop_query_def eval_nat_numeral api_query_def scripted_api_def world0_def
        emit_def wait_minutes_def events_since_def)
  have nr: "\<forall>m. OtherError ''boom'' \<noteq> SentinelAPIError m" by simp
  from loop_query_other_error_propagates[OF run mem nr] mem nr
  show ?thesis by simp
qed

text \<open>
  Claim C10. With \<open>max_retries\<close> zero or negative, \<open>loop_query\<close> returns \<open>None\<close>,
  with no call of the query operation, no error and no other effect.
\<close>

theorem loop_query_no_attempts:
  assumes "max_retries \<le> 0"
  shows "loop_query api query_kwargs max_retries timeout_minutes w = (Inr None, w)"
  using assms by (simp add: loop_query_def)

theorem loop_query_no_attempts_witness:
  "(0::int) \<le> 0 \<and> loop_query failing_api 0 0 (Some 5) (world0 (0::nat)) = (Inr None, world0 0)"
  using loop_query_no_attempts[where max_retries = 0 and api = failing_api
      and query_kwargs = 0 and timeout_minutes = "Some 5" and w = "world0 (0::nat)"]
  by simp

section \<open>Dictionaries in insertion order\<close>




lemma dict_update_append: "dict_update d (e1 @ e2) = dict_update (dict_update d e1) e2"
  by (induction e1 arbitrary: d) auto




lemma set_first_occurrences [simp]: "set (first_occurrences xs) = set xs"
  by (induction xs) auto

lemma distinct_first_occurrences [simp]: "distinct (first_occurrences xs)"
  by (induction xs) (auto simp: distinct_removeAll)




section \<open>One iteration of an aggregator\<close>

lemma loop_query_kw_frame:
  assumes "loop_query_kw api kw lk w = (r, w')"
  shows "\<exists>new. heap w' = heap w \<and> next_addr w' = next_addr w \<and> files w' = files w
           \<and> trace w' = trace w @ new
           \<and> set (query_args new) \<subseteq> {heap w kw}
           \<and> answers new = (case r of Inr (Some res) \<Rightarrow> [res] | _ \<Rightarrow> [])"
  using loop_query_from_frame[OF assms[unfolded loop_query_kw_def loop_query_def]] by blast

text \<open>What one iteration of an aggregator leaves behind, given the dictionary it queried with.\<close>

lemma rel_orbit_body_frame:
  assumes run: "rel_orbit_body api qk lk ron products w = (r, w')"
  shows "\<exists>new. next_addr w' = Suc (next_addr w)
           \<and> (\<forall>a. a \<noteq> next_addr w \<longrightarrow> heap w' a = heap w a)
           \<and> files w' = files w
           \<and> trace w' = trace w @ new
           \<and> set (query_args new)
                \<subseteq> {setitem ''relativeorbitnumber'' (PStr (str_int ron)) (heap w qk)}
           \<and> (\<forall>p. r = Inr p \<longrightarrow> p = dict_update products (concat (answers new)))"
proof -
  define w2 where "w2 = dict_setitem (next_addr w) ''relativeorbitnumber'' (PStr (str_int ron))
                          (snd (dict_copy qk w))"
  have w2: "next_addr w2 = Suc (next_addr w)" "files w2 = files w" "trace w2 = trace w"
      "\<forall>a. a \<noteq> next_addr w \<longrightarrow> heap w2 a = heap w a"
      "heap w2 (next_addr w) = setitem ''relativeorbitnumber'' (PStr (str_int ron)) (heap w qk)"
    by (simp_all add: w2_def dict_setitem_def dict_copy_def)
  obtain r0 w3 where lq: "loop_query_kw api (next_addr w) lk w2 = (r0, w3)"
    by (cases "loop_query_kw api (next_addr w) lk w2")
  from loop_query_kw_frame[OF lq] obtain new where new:
    "heap w3 = heap w2" "next_addr w3 = next_addr w2" "files w3 = files w2"
    "trace w3 = trace w2 @ new" "set (query_args new) \<subseteq> {heap w2 (next_addr w)}"
    "answers new = (case r0 of Inr (Some res) \<Rightarrow> [res] | _ \<Rightarrow> [])"
    by blast
  have body: "rel_orbit_body api qk lk ron products w =
      (case r0 of Inl err \<Rightarrow> (Inl err, w3)
       | Inr None \<Rightarrow> (Inl (TypeError '''NoneType' object is not iterable''), w3)
       | Inr (Some pp) \<Rightarrow> (Inr (dict_update products pp), w3))"
    using lq by (simp add: rel_orbit_body_def dict_copy_def Let_def w2_def split: sum.splits option.splits)
  have w': "w' = w3" and res: "\<forall>p. r = Inr p \<longrightarrow> p = dict_update products (concat (answers new))"
    using run new(6) unfolding body by (auto split: sum.splits option.splits)
  show ?thesis
    using new(1-5) w2 unfolding w' by (intro exI[of _ new]) (simp add: res)
qed

lemma dates_body_frame:
  assumes run: "dates_body api parse qk lk date products w = (r, w')"
  shows "\<exists>new. next_addr w' = Suc (next_addr w)
           \<and> (\<forall>a. a \<noteq> next_addr w \<longrightarrow> heap w' a = heap w a)
           \<and> files w' = files w
           \<and> trace w' = trace w @ new
           \<and> (\<forall>kw\<in>set (query_args new). \<exists>s e. parse date = Inr s \<and> add_days s 1 = Inr e
                  \<and> kw = setitem ''date'' (PDates s e) (heap w qk))
           \<and> (\<forall>p. r = Inr p \<longrightarrow> p = dict_update products (concat (answers new)))"
proof -
  define w1 where "w1 = snd (dict_copy qk w)"
  have w1: "next_addr w1 = Suc (next_addr w)" "files w1 = files w" "trace w1 = trace w"
      "\<forall>a. a \<noteq> next_addr w \<longrightarrow> heap w1 a = heap w a"
    by (simp_all add: w1_def dict_copy_def)
  have early: ?thesis if "w' = w1" "\<exists>err. r = Inl err"
    using that w1 by (intro exI[of _ "[]"]) auto
  show ?thesis
  proof (cases "parse date")
    case (Inl err)
    with run have "w' = w1" "r = Inl err"
      by (simp_all add: dates_body_def dict_copy_def w1_def)
    then show ?thesis by (intro early) auto
  next
    case s: (Inr s)
    show ?thesis
    proof (cases "add_days s 1")
      case (Inl err)
      with run s have "w' = w1" "r = Inl err"
        by (simp_all add: dates_body_def dict_copy_def w1_def)
      then show ?thesis by (intro early) auto
    next
      case e: (Inr e)
      define w2 where "w2 = dict_setitem (next_addr w) ''date'' (PDates s e) w1"
      have w2: "next_addr w2 = Suc (next_addr w)" "files w2 = files w" "trace w2 = trace w"
          "\<forall>a. a \<noteq> next_addr w \<longrightarrow> heap w2 a = heap w a"
          "heap w2 (next_addr w) = setitem ''date'' (PDates s e) (heap w qk)"
        by (simp_all add: w2_def w1_def dict_setitem_def dict_copy_def)
      obtain r0 w3 where lq: "loop_query_kw api (next_addr w) lk w2 = (r0, w3)"
        by (cases "loop_query_kw api (next_addr w) lk w2")
      from loop_query_kw_frame[OF lq] obtain new where new:
        "heap w3 = heap w2" "next_addr w3 = next_addr w2" "files w3 = files w2"
        "trace w3 = trace w2 @ new" "set (query_args new) \<subseteq> {heap w2 (next_addr w)}"
        "answers new = (case r0 of Inr (Some res) \<Rightarrow> [res] | _ \<Rightarrow> [])"
        by blast
      have body: "dates_body api parse qk lk date products w =
          (case r0 of Inl err \<Rightarrow> (Inl err, w3)
           | Inr None \<Rightarrow> (Inl (TypeError ''object of type 'NoneType' has no len()''), w3)
           | Inr (Some pp) \<Rightarrow> (Inr (dict_update products pp),
                emit (EvInfo [''   -- date %s (%d)'', date, str_nat (length pp)]) w3))"
        using lq s e
        by (simp add: dates_body_def dict_copy_def Let_def w2_def w1_def split: sum.splits option.splits)
      have kw: "\<forall>kw\<in>set (query_args new). \<exists>s e. parse date = Inr s \<and> add_days s 1 = Inr e
                  \<and> kw = setitem ''date'' (PDates s e) (heap w qk)"
        using new(5) w2(5) s e by auto
      show ?thesis
      proof (cases "\<exists>pp. r0 = Inr (Some pp)")
        case True
        then obtain pp where pp: "r0 = Inr (Some pp)" by blast
        define ev where "ev = EvInfo [''   -- date %s (%d)'', date, str_nat (length pp)]"
        from run have w': "w' = emit ev w3" and r: "r = Inr (dict_update products pp)"
          unfolding body pp ev_def by simp_all
        have "trace w' = trace w @ new @ [ev]"
          by (simp add: w' emit_def new(4) w2(3))
        moreover have "answers (new @ [ev]) = [pp]" "query_args (new @ [ev]) = query_args new"
          using new(6) pp by (simp_all add: ev_def)
        ultimately show ?thesis
          using new(1-3) w2 kw r
          by (intro exI[of _ "new @ [ev]"]) (simp add: w' emit_def)
      next
        case False
        with run have w': "w' = w3" and r: "\<exists>err. r = Inl err"
          unfolding body by (auto split: sum.splits option.splits)
        show ?thesis
          using new(1-4) w2 kw r unfolding w' by (intro exI[of _ new]) auto
      qed
    qed
  qed
qed

lemma mk_datetime_2016_11_1:
  "mk_datetime 2016 11 1 = \<lparr>ordinal = 736269, usec = 0, utcoffset = None\<rparr>"
  by (simp add: mk_datetime_def ymd2ord_def days_before_year_def days_before_month_def is_leap_def)

lemma mk_datetime_2017_3_31:
  "mk_datetime 2017 3 31 = \<lparr>ordinal = 736419, usec = 0, utcoffset = None\<rparr>"
  by (simp add: mk_datetime_def ymd2ord_def days_before_year_def days_before_month_def is_leap_def)

lemma before_2016_11_1_add_day:
  assumes "dt_lt s (mk_datetime 2016 11 1) = Inr True"
  shows "\<exists>e. add_days s 1 = Inr e"
  using assms
  by (auto simp: dt_lt_def mk_datetime_2016_11_1 add_days_def MAXORDINAL_def split: option.splits)

lemma not_before_2016_11_1_naive:
  assumes "dt_lt s (mk_datetime 2016 11 1) = Inr b"
  shows "\<exists>b'. dt_lt s (mk_datetime 2017 3 31) = Inr b'"
  using assms
  by (auto simp: dt_lt_def mk_datetime_2016_11_1 mk_datetime_2017_3_31 split: option.splits)

lemma tiles_dates_body_frame:
  assumes run: "tiles_dates_body api parse qk lk tile date products w = (r, w')"
  shows "\<exists>new. next_addr w' = Suc (next_addr w)
           \<and> (\<forall>a. a \<noteq> next_addr w \<longrightarrow> heap w' a = heap w a)
           \<and> files w' = files w
           \<and> trace w' = trace w @ new
           \<and> (\<forall>kw\<in>set (query_args new). \<exists>s e b. parse date = Inr s \<and> add_days s 1 = Inr e
                  \<and> dt_lt s (mk_datetime 2016 11 1) = Inr False
                  \<and> dt_lt s (mk_datetime 2017 3 31) = Inr b
                  \<and> kw = (if b then setitem ''filename'' (PStr (''*_T'' @ tile @ ''_*''))
                           else setitem ''tileid'' (PStr tile))
                            (setitem ''date'' (PDates s e) (heap w qk)))
           \<and> (\<forall>s e b. parse date = Inr s \<longrightarrow> add_days s 1 = Inr e
                  \<longrightarrow> dt_lt s (mk_datetime 2016 11 1) = Inr False
                  \<longrightarrow> dt_lt s (mk_datetime 2017 3 31) = Inr b
                  \<longrightarrow> heap w' (next_addr w)
                        = (if b then setitem ''filename'' (PStr (''*_T'' @ tile @ ''_*''))
                           else setitem ''tileid'' (PStr tile))
                            (setitem ''date'' (PDates s e) (heap w qk)))
           \<and> (\<forall>s. parse date = Inr s \<longrightarrow> dt_lt s (mk_datetime 2016 11 1) = Inr True
                  \<longrightarrow> new = [] \<and> api_state w' = api_state w
                      \<and> r = Inl (ValueError ''Search by tile works only for single-tile (past 11/2016) format.''))
           \<and> (\<forall>p. r = Inr p \<longrightarrow> p = dict_update products (concat (answers new)))"
proof -
  define w1 where "w1 = snd (dict_copy qk w)"
  have w1: "next_addr w1 = Suc (next_addr w)" "files w1 = files w" "trace w1 = trace w"
      "\<forall>a. a \<noteq> next_addr w \<longrightarrow> heap w1 a = heap w a" "api_state w1 = api_state w"
    by (simp_all add: w1_def dict_copy_def)
  show ?thesis
  proof (cases "parse date")
    case (Inl err)
    with run have "w' = w1" "r = Inl err"
      by (simp_all add: tiles_dates_body_def dict_copy_def w1_def)
    with w1 Inl show ?thesis by (intro exI[of _ "[]"]) auto
  next
    case s: (Inr s)
    show ?thesis
    proof (cases "add_days s 1")
      case (Inl err)
      with run s have "w' = w1" "r = Inl err"
        by (simp_all add: tiles_dates_body_def dict_copy_def w1_def)
      moreover have "dt_lt s (mk_datetime 2016 11 1) \<noteq> Inr True"
        using before_2016_11_1_add_day[of s] Inl by auto
      ultimately show ?thesis using w1 s Inl by (intro exI[of _ "[]"]) auto
    next
      case e: (Inr e)
      define w2 where "w2 = dict_setitem (next_addr w) ''date'' (PDates s e) w1"
      have w2: "next_addr w2 = Suc (next_addr w)" "files w2 = files w" "trace w2 = trace w"
          "\<forall>a. a \<noteq> next_addr w \<longrightarrow> heap w2 a = heap w a"
          "heap w2 (next_addr w) = setitem ''date'' (PDates s e) (heap w qk)"
          "api_state w2 = api_state w"
        by (simp_all add: w2_def w1_def dict_setitem_def dict_copy_def)
      show ?thesis
      proof (cases "dt_lt s (mk_datetime 2016 11 1)")
        case (Inl err)
        with run s e have "w' = w2" "r = Inl err"
          by (simp_all add: tiles_dates_body_def dict_copy_def w1_def w2_def)
        with w2 s e Inl show ?thesis by (intro exI[of _ "[]"]) auto
      next
        case c1: (Inr b1)
        show ?thesis
        proof (cases b1)
          case True
          with run s e c1 have "w' = w2"
            "r = Inl (ValueError ''Search by tile works only for single-tile (past 11/2016) format.'')"
            by (simp_all add: tiles_dates_body_def dict_copy_def w1_def w2_def)
          with w2 s e c1 True show ?thesis by (intro exI[of _ "[]"]) auto
        next
          case nb1: False
          have c1f: "dt_lt s (mk_datetime 2016 11 1) = Inr False"
            using c1 nb1 by simp
          obtain b where c2: "dt_lt s (mk_datetime 2017 3 31) = Inr b"
            using not_before_2016_11_1_naive[OF c1] by blast
          define kwv where "kwv = (if b then setitem ''filename'' (PStr (''*_T'' @ tile @ ''_*''))
                           else setitem ''tileid'' (PStr tile))
                            (setitem ''date'' (PDates s e) (heap w qk))"
          define w3 where "w3 = (if b
                         then dict_setitem (next_addr w) ''filename'' (PStr (''*_T'' @ tile @ ''_*'')) w2
                         else dict_setitem (next_addr w) ''tileid'' (PStr tile) w2)"
          have w3: "next_addr w3 = Suc (next_addr w)" "files w3 = files w" "trace w3 = trace w"
              "\<forall>a. a \<noteq> next_addr w \<longrightarrow> heap w3 a = heap w a"
              "heap w3 (next_addr w) = kwv"
            using w2 by (simp_all add: w3_def kwv_def dict_setitem_def)
          obtain r0 w4 where lq: "loop_query_kw api (next_addr w) lk w3 = (r0, w4)"
            by (cases "loop_query_kw api (next_addr w) lk w3")
          from loop_query_kw_frame[OF lq] obtain new where new:
            "heap w4 = heap w3" "next_addr w4 = next_addr w3" "files w4 = files w3"
            "trace w4 = trace w3 @ new" "set (query_args new) \<subseteq> {heap w3 (next_addr w)}"
            "answers new = (case r0 of Inr (Some res) \<Rightarrow> [res] | _ \<Rightarrow> [])"
            by blast
          have body: "tiles_dates_body api parse qk lk tile date products w =
              (case r0 of Inl err \<Rightarrow> (Inl err, w4)
               | Inr None \<Rightarrow> (Inl (TypeError ''object of type 'NoneType' has no len()''), w4)
               | Inr (Some pp) \<Rightarrow> (Inr (dict_update products pp),
                    emit (EvInfo [''   -- date %s (%d)'', date, str_nat (length pp)]) w4))"
          proof (cases b)
            case True
            with lq have "loop_query_kw api (next_addr w) lk
                (dict_setitem (next_addr w) ''filename'' (PStr (''*_T'' @ tile @ ''_*'')) w2) = (r0, w4)"
              by (simp add: w3_def)
            then show ?thesis using s e c1 c2 nb1 True
              by (simp add: tiles_dates_body_def dict_copy_def Let_def w2_def w1_def
                  split: sum.splits option.splits)
          next
            case False
            with lq have "loop_query_kw api (next_addr w) lk
                (dict_setitem (next_addr w) ''tileid'' (PStr tile) w2) = (r0, w4)"
              by (simp add: w3_def)
            then show ?thesis using s e c1 c2 nb1 False
              by (simp add: tiles_dates_body_def dict_copy_def Let_def w2_def w1_def
                  split: sum.splits option.splits)
          qed
          have kw: "\<forall>kw\<in>set (query_args new). \<exists>s e b. parse date = Inr s \<and> add_days s 1 = Inr e
                  \<and> dt_lt s (mk_datetime 2016 11 1) = Inr False
                  \<and> dt_lt s (mk_datetime 2017 3 31) = Inr b
                  \<and> kw = (if b then setitem ''filename'' (PStr (''*_T'' @ tile @ ''_*''))
                           else setitem ''tileid'' (PStr tile))
                            (setitem ''date'' (PDates s e) (heap w qk))"
          proof
            fix kw assume "kw \<in> set (query_args new)"
            with new(5) w3(5) have "kw = kwv" by auto
            with s e c1f c2 show "\<exists>s e b. parse date = Inr s \<and> add_days s 1 = Inr e
                  \<and> dt_lt s (mk_datetime 2016 11 1) = Inr False
                  \<and> dt_lt s (mk_datetime 2017 3 31) = Inr b
                  \<and> kw = (if b then setitem ''filename'' (PStr (''*_T'' @ tile @ ''_*''))
                           else setitem ''tileid'' (PStr tile))
                            (setitem ''date'' (PDates s e) (heap w qk))"
              unfolding kwv_def by blast
          qed
          have params: "\<forall>s' e' b'. parse date = Inr s' \<longrightarrow> add_days s' 1 = Inr e'
                  \<longrightarrow> dt_lt s' (mk_datetime 2016 11 1) = Inr False
                  \<longrightarrow> dt_lt s' (mk_datetime 2017 3 31) = Inr b'
                  \<longrightarrow> kwv = (if b' then setitem ''filename'' (PStr (''*_T'' @ tile @ ''_*''))
                           else setitem ''tileid'' (PStr tile))
                            (setitem ''date'' (PDates s' e') (heap w qk))"
            using s e c2 by (auto simp: kwv_def)
          have notearly: "\<forall>s'. parse date = Inr s' \<longrightarrow> dt_lt s' (mk_datetime 2016 11 1) \<noteq> Inr True"
            using s c1f by auto
          show ?thesis
          proof (cases "\<exists>pp. r0 = Inr (Some pp)")
            case True
            then obtain pp where pp: "r0 = Inr (Some pp)" by blast
            define ev where "ev = EvInfo [''   -- date %s (%d)'', date, str_nat (length pp)]"
            from run have w': "w' = emit ev w4" and r: "r = Inr (dict_update products pp)"
              unfolding body pp ev_def by simp_all
            have tr: "trace w' = trace w @ new @ [ev]"
              by (simp add: w' emit_def new(4) w3(3))
            have an: "answers (new @ [ev]) = [pp]" "query_args (new @ [ev]) = query_args new"
              using new(6) pp by (simp_all add: ev_def)
            have hp: "next_addr w' = Suc (next_addr w)" "files w' = files w" "heap w' = heap w3"
              by (simp_all add: w' emit_def new w3)
            show ?thesis
              apply (intro exI[of _ "new @ [ev]"] conjI)
              subgoal using hp by simp
              subgoal using hp w3(4) by simp
              subgoal using hp by simp
              subgoal using tr by simp
              subgoal using kw an by simp
              subgoal using params hp w3(5) by simp
              subgoal using notearly by blast
              subgoal using r an by simp
              done
          next
            case False
            with run have w': "w' = w4" and r: "\<exists>err. r = Inl err"
              unfolding body by (auto split: sum.splits option.splits)
            have hp: "next_addr w' = Suc (next_addr w)" "files w' = files w" "heap w' = heap w3"
              by (simp_all add: w' new w3)
            show ?thesis
              apply (intro exI[of _ new] conjI)
              subgoal using hp by simp
              subgoal using hp w3(4) by simp
              subgoal using hp by simp
              subgoal using new(4) w3(3) w' by simp
              subgoal using kw by simp
              subgoal using params hp w3(5) by simp
              subgoal using notearly by blast
              subgoal using r by auto
              done
          qed
        qed
      qed
    qed
  qed
qed

section \<open>Iterating over the items\<close>

lemma query_rel_orbit_numbers_from_frame:
  "query_rel_orbit_numbers_from api qk lk rons products w = (r, w') \<Longrightarrow>
     \<exists>new. next_addr w \<le> next_addr w'
       \<and> (\<forall>a<next_addr w. heap w' a = heap w a)
       \<and> files w' = files w
       \<and> trace w' = trace w @ new
       \<and> (qk < next_addr w \<longrightarrow>
            (\<forall>kw\<in>set (query_args new). \<exists>ron\<in>set rons.
                kw = setitem ''relativeorbitnumber'' (PStr (str_int ron)) (heap w qk)))
       \<and> (\<forall>p. r = Inr p \<longrightarrow> p = dict_update products (concat (answers new)))"
proof (induction rons arbitrary: products w)
  case Nil
  then show ?case by (intro exI[of _ "[]"]) auto
next
  case (Cons ron rons)
  obtain r1 w1 where b: "rel_orbit_body api qk lk ron products w = (r1, w1)"
    by (cases "rel_orbit_body api qk lk ron products w")
  from rel_orbit_body_frame[OF b] obtain new1 where n1:
    "next_addr w1 = Suc (next_addr w)"
    "\<forall>a. a \<noteq> next_addr w \<longrightarrow> heap w1 a = heap w a"
    "files w1 = files w"
    "trace w1 = trace w @ new1"
    "set (query_args new1) \<subseteq> {setitem ''relativeorbitnumber'' (PStr (str_int ron)) (heap w qk)}"
    "\<forall>p. r1 = Inr p \<longrightarrow> p = dict_update products (concat (answers new1))"
    by blast
  show ?case
  proof (cases r1)
    case (Inl err)
    with Cons.prems b have "r = Inl err" "w' = w1" by simp_all
    with n1 show ?thesis by (intro exI[of _ new1]) auto
  next
    case (Inr p1)
    with Cons.prems b have rec: "query_rel_orbit_numbers_from api qk lk rons p1 w1 = (r, w')"
      by simp
    from Cons.IH[OF rec] obtain new2 where n2:
      "next_addr w1 \<le> next_addr w'"
      "\<forall>a<next_addr w1. heap w' a = heap w1 a"
      "files w' = files w1"
      "trace w' = trace w1 @ new2"
      "qk < next_addr w1 \<longrightarrow>
            (\<forall>kw\<in>set (query_args new2). \<exists>ron\<in>set rons.
                kw = setitem ''relativeorbitnumber'' (PStr (str_int ron)) (heap w1 qk))"
      "\<forall>p. r = Inr p \<longrightarrow> p = dict_update p1 (concat (answers new2))"
      by blast
    have p1: "p1 = dict_update products (concat (answers new1))"
      using n1(6) Inr by simp
    show ?thesis
    proof (intro exI[of _ "new1 @ new2"] conjI)
      show "next_addr w \<le> next_addr w'" using n1(1) n2(1) by simp
      show "\<forall>a<next_addr w. heap w' a = heap w a" using n1(1,2) n2(2) by simp
      show "files w' = files w" using n1(3) n2(3) by simp
      show "trace w' = trace w @ new1 @ new2" using n1(4) n2(4) by simp
      show "qk < next_addr w \<longrightarrow>
            (\<forall>kw\<in>set (query_args (new1 @ new2)). \<exists>ron\<in>set (ron # rons).
                kw = setitem ''relativeorbitnumber'' (PStr (str_int ron)) (heap w qk))"
      proof (intro impI ballI)
        fix kw assume qk: "qk < next_addr w" and kw: "kw \<in> set (query_args (new1 @ new2))"
        have h: "heap w1 qk = heap w qk" using qk n1(2) by simp
        from kw have "kw \<in> set (query_args new1) \<or> kw \<in> set (query_args new2)" by simp
        then show "\<exists>ron\<in>set (ron # rons).
                kw = setitem ''relativeorbitnumber'' (PStr (str_int ron)) (heap w qk)"
        proof
          assume "kw \<in> set (query_args new1)"
          with n1(5) show ?thesis by auto
        next
          assume "kw \<in> set (query_args new2)"
          with n2(5) qk n1(1) h show ?thesis by auto
        qed
      qed
      show "\<forall>p. r = Inr p \<longrightarrow> p = dict_update products (concat (answers (new1 @ new2)))"
        using n2(6) p1 by (simp add: dict_update_append)
    qed
  qed
qed

lemma query_dates_from_frame:
  "query_dates_from api parse qk lk dates products w = (r, w') \<Longrightarrow>
     \<exists>new. next_addr w \<le> next_addr w'
       \<and> (\<forall>a<next_addr w. heap w' a = heap w a)
       \<and> files w' = files w
       \<and> trace w' = trace w @ new
       \<and> (qk < next_addr w \<longrightarrow>
            (\<forall>kw\<in>set (query_args new). \<exists>date\<in>set dates. (\<exists>s e. parse date = Inr s \<and> add_days s 1 = Inr e
                  \<and> kw = setitem ''date'' (PDates s e) (heap w qk))))
       \<and> (\<forall>p. r = Inr p \<longrightarrow> p = dict_update products (concat (answers new)))"
proof (induction dates arbitrary: products w)
  case Nil
  then show ?case by (intro exI[of _ "[]"]) auto
next
  case (Cons date dates)
  obtain r1 w1 where b: "dates_body api parse qk lk date products w = (r1, w1)"
    by (cases "dates_body api parse qk lk date products w")
  from dates_body_frame[OF b] obtain new1 where n1:
    "next_addr w1 = Suc (next_addr w)"
    "\<forall>a. a \<noteq> next_addr w \<longrightarrow> heap w1 a = heap w a"
    "files w1 = files w"
    "trace w1 = trace w @ new1"
    "\<forall>kw\<in>set (query_args new1). (\<exists>s e. parse date = Inr s \<and> add_days s 1 = Inr e
                  \<and> kw = setitem ''date'' (PDates s e) (heap w qk))"
    "\<forall>p. r1 = Inr p \<longrightarrow> p = dict_update products (concat (answers new1))"
    by blast
  show ?case
  proof (cases r1)
    case (Inl err)
    with Cons.prems b have "r = Inl err" "w' = w1" by simp_all
    with n1 show ?thesis by (intro exI[of _ new1]) auto
  next
    case (Inr p1)
    with Cons.prems b have rec: "query_dates_from api parse qk lk dates p1 w1 = (r, w')"
      by simp
    from Cons.IH[OF rec] obtain new2 where n2:
      "next_addr w1 \<le> next_addr w'"
      "\<forall>a<next_addr w1. heap w' a = heap w1 a"
      "files w' = files w1"
      "trace w' = trace w1 @ new2"
      "qk < next_addr w1 \<longrightarrow>
            (\<forall>kw\<in>set (query_args new2). \<exists>date\<in>set dates. (\<exists>s e. parse date = Inr s \<and> add_days s 1 = Inr e
                  \<and> kw = setitem ''date'' (PDates s e) (heap w1 qk)))"
      "\<forall>p. r = Inr p \<longrightarrow> p = dict_update p1 (concat (answers new2))"
      by blast
    have p1: "p1 = dict_update products (concat (answers new1))"
      using n1(6) Inr by simp
    show ?thesis
    proof (intro exI[of _ "new1 @ new2"] conjI)
      show "next_addr w \<le> next_addr w'" using n1(1) n2(1) by simp
      show "\<forall>a<next_addr w. heap w' a = heap w a" using n1(1,2) n2(2) by simp
      show "files w' = files w" using n1(3) n2(3) by simp
      show "trace w' = trace w @ new1 @ new2" using n1(4) n2(4) by simp
      show "qk < next_addr w \<longrightarrow>
            (\<forall>kw\<in>set (query_args (new1 @ new2)). \<exists>date\<in>set (date # dates). (\<exists>s e. parse date = Inr s \<and> add_days s 1 = Inr e
                  \<and> kw = setitem ''date'' (PDates s e) (heap w qk)))"
      proof (intro impI ballI)
        fix kw assume qk: "qk < next_addr w" and kw: "kw \<in> set (query_args (new1 @ new2))"
        have h: "heap w1 qk = heap w qk" using qk n1(2) by simp
        from kw have "kw \<in> set (query_args new1) \<or> kw \<in> set (query_args new2)" by simp
        then show "\<exists>date\<in>set (date # dates). (\<exists>s e. parse date = Inr s \<and> add_days s 1 = Inr e
                  \<and> kw = setitem ''date'' (PDates s e) (heap w qk))"
        proof
          assume "kw \<in> set (query_args new1)"
          with n1(5) show ?thesis by auto
        next
          assume "kw \<in> set (query_args new2)"
          with n2(5) qk n1(1) have "\<exists>date\<in>set dates. (\<exists>s e. parse date = Inr s \<and> add_days s 1 = Inr e
                  \<and> kw = setitem ''date'' (PDates s e) (heap w1 qk))" by simp
          then show ?thesis unfolding h by auto
        qed
      qed
      show "\<forall>p. r = Inr p \<longrightarrow> p = dict_update products (concat (answers (new1 @ new2)))"
        using n2(6) p1 by (simp add: dict_update_append)
    qed
  qed
qed

lemma tiles_dates_inner_frame:
  "tiles_dates_inner api parse qk lk tile dates products w = (r, w') \<Longrightarrow>
     \<exists>new. next_addr w \<le> next_addr w'
       \<and> (\<forall>a<next_addr w. heap w' a = heap w a)
       \<and> files w' = files w
       \<and> trace w' = trace w @ new
       \<and> (qk < next_addr w \<longrightarrow>
            (\<forall>kw\<in>set (query_args new). \<exists>date\<in>set dates. (\<exists>s e b. parse date = Inr s \<and> add_days s 1 = Inr e
                  \<and> dt_lt s (mk_datetime 2016 11 1) = Inr False
                  \<and> dt_lt s (mk_datetime 2017 3 31) = Inr b
                  \<and> kw = (if b then setitem ''filename'' (PStr (''*_T'' @ tile @ ''_*''))
                           else setitem ''tileid'' (PStr tile))
                            (setitem ''date'' (PDates s e) (heap w qk)))))
       \<and> (\<forall>p. r = Inr p \<longrightarrow> p = dict_update products (concat (answers new)))"
proof (induction dates arbitrary: products w)
  case Nil
  then show ?case by (intro exI[of _ "[]"]) auto
next
  case (Cons date dates)
  obtain r1 w1 where b: "tiles_dates_body api parse qk lk tile date products w = (r1, w1)"
    by (cases "tiles_dates_body api parse qk lk tile date products w")
  from tiles_dates_body_frame[OF b] obtain new1 where n1:
    "next_addr w1 = Suc (next_addr w)"
    "\<forall>a. a \<noteq> next_addr w \<longrightarrow> heap w1 a = heap w a"
    "files w1 = files w"
    "trace w1 = trace w @ new1"
    "\<forall>kw\<in>set (query_args new1). (\<exists>s e b. parse date = Inr s \<and> add_days s 1 = Inr e
                  \<and> dt_lt s (mk_datetime 2016 11 1) = Inr False
                  \<and> dt_lt s (mk_datetime 2017 3 31) = Inr b
                  \<and> kw = (if b then setitem ''filename'' (PStr (''*_T'' @ tile @ ''_*''))
                           else setitem ''tileid'' (PStr tile))
                            (setitem ''date'' (PDates s e) (heap w qk)))"
    "\<forall>p. r1 = Inr p \<longrightarrow> p = dict_update products (concat (answers new1))"
    by blast
  show ?case
  proof (cases r1)
    case (Inl err)
    with Cons.prems b have "r = Inl err" "w' = w1" by simp_all
    with n1 show ?thesis by (intro exI[of _ new1]) auto
  next
    case (Inr p1)
    with Cons.prems b have rec: "tiles_dates_inner api parse qk lk tile dates p1 w1 = (r, w')"
      by simp
    from Cons.IH[OF rec] obtain new2 where n2:
      "next_addr w1 \<le> next_addr w'"
      "\<forall>a<next_addr w1. heap w' a = heap w1 a"
      "files w' = files w1"
      "trace w' = trace w1 @ new2"
      "qk < next_addr w1 \<longrightarrow>
            (\<forall>kw\<in>set (query_args new2). \<exists>date\<in>set dates. (\<exists>s e b. parse date = Inr s \<and> add_days s 1 = Inr e
                  \<and> dt_lt s (mk_datetime 2016 11 1) = Inr False
                  \<and> dt_lt s (mk_datetime 2017 3 31) = Inr b
                  \<and> kw = (if b then setitem ''filename'' (PStr (''*_T'' @ tile @ ''_*''))
                           else setitem ''tileid'' (PStr tile))
                            (setitem ''date'' (PDates s e) (heap w1 qk))))"
      "\<forall>p. r = Inr p \<longrightarrow> p = dict_update p1 (concat (answers new2))"
      by blast
    have p1: "p1 = dict_update products (concat (answers new1))"
      using n1(6) Inr by simp
    show ?thesis
    proof (intro exI[of _ "new1 @ new2"] conjI)
      show "next_addr w \<le> next_addr w'" using n1(1) n2(1) by simp
      show "\<forall>a<next_addr w. heap w' a = heap w a" using n1(1,2) n2(2) by simp
      show "files w' = files w" using n1(3) n2(3) by simp
      show "trace w' = trace w @ new1 @ new2" using n1(4) n2(4) by simp
      show "qk < next_addr w \<longrightarrow>
            (\<forall>kw\<in>set (query_args (new1 @ new2)). \<exists>date\<in>set (date # dates). (\<exists>s e b. parse date = Inr s \<and> add_days s 1 = Inr e
                  \<and> dt_lt s (mk_datetime 2016 11 1) = Inr False
                  \<and> dt_lt s (mk_datetime 2017 3 31) = Inr b
                  \<and> kw = (if b then setitem ''filename'' (PStr (''*_T'' @ tile @ ''_*''))
                           else setitem ''tileid'' (PStr tile))
                            (setitem ''date'' (PDates s e) (heap w qk))))"
      proof (intro impI ballI)
        fix kw assume qk: "qk < next_addr w" and kw: "kw \<in> set (query_args (new1 @ new2))"
        have h: "heap w1 qk = heap w qk" using qk n1(2) by simp
        from kw have "kw \<in> set (query_args new1) \<or> kw \<in> set (query_args new2)" by simp
        then show "\<exists>date\<in>set (date # dates). (\<exists>s e b. parse date = Inr s \<and> add_days s 1 = Inr e
                  \<and> dt_lt s (mk_datetime 2016 11 1) = Inr False
                  \<and> dt_lt s (mk_datetime 2017 3 31) = Inr b
                  \<and> kw = (if b then setitem ''filename'' (PStr (''*_T'' @ tile @ ''_*''))
                           else setitem ''tileid'' (PStr tile))
                            (setitem ''date'' (PDates s e) (heap w qk)))"
        proof
          assume "kw \<in> set (query_args new1)"
          with n1(5) show ?thesis by auto
        next
          assume "kw \<in> set (query_args new2)"
          with n2(5) qk n1(1) have "\<exists>date\<in>set dates. (\<exists>s e b. parse date = Inr s \<and> add_days s 1 = Inr e
                  \<and> dt_lt s (mk_datetime 2016 11 1) = Inr False
                  \<and> dt_lt s (mk_datetime 2017 3 31) = Inr b
                  \<and> kw = (if b then setitem ''filename'' (PStr (''*_T'' @ tile @ ''_*''))
                           else setitem ''tileid'' (PStr tile))
                            (setitem ''date'' (PDates s e) (heap w1 qk)))" by simp
          then show ?thesis unfolding h by auto
        qed
      qed
      show "\<forall>p. r = Inr p \<longrightarrow> p = dict_update products (concat (answers (new1 @ new2)))"
        using n2(6) p1 by (simp add: dict_update_append)
    qed
  qed
qed

lemma tiles_dates_outer_frame:
  "tiles_dates_outer api parse td qk lk tiles products w = (r, w') \<Longrightarrow>
     \<exists>new. next_addr w \<le> next_addr w'
       \<and> (\<forall>a<next_addr w. heap w' a = heap w a)
       \<and> files w' = files w
       \<and> trace w' = trace w @ new
       \<and> (qk < next_addr w \<longrightarrow>
            (\<forall>kw\<in>set (query_args new). \<exists>tile\<in>set tiles. \<exists>dates. map_of td tile = Some dates \<and> (\<exists>date\<in>set dates. (\<exists>s e b. parse date = Inr s \<and> add_days s 1 = Inr e
                  \<and> dt_lt s (mk_datetime 2016 11 1) = Inr False
                  \<and> dt_lt s (mk_datetime 2017 3 31) = Inr b
                  \<and> kw = (if b then setitem ''filename'' (PStr (''*_T'' @ tile @ ''_*''))
                           else setitem ''tileid'' (PStr tile))
                            (setitem ''date'' (PDates s e) (heap w qk))))))
       \<and> (\<forall>p. r = Inr p \<longrightarrow> p = dict_update products (concat (answers new)))"
proof (induction tiles arbitrary: products w)
  case Nil
  then show ?case by (intro exI[of _ "[]"]) auto
next
  case (Cons tile tiles)
  define ev where "ev = EvInfo [''-- tile %s'', tile]"
  define w0 where "w0 = emit ev w"
  have w0: "next_addr w0 = next_addr w" "heap w0 = heap w" "files w0 = files w"
      "trace w0 = trace w @ [ev]"
    by (simp_all add: w0_def emit_def)
  show ?case
  proof (cases "map_of td tile")
    case None
    with Cons.prems have "r = Inl (KeyError tile)" "w' = w0"
      by (simp_all add: w0_def ev_def Let_def)
    with w0 show ?thesis by (intro exI[of _ "[ev]"]) (auto simp: ev_def)
  next
    case (Some dates)
    obtain r1 w1 where b: "tiles_dates_inner api parse qk lk tile dates products w0 = (r1, w1)"
      by (cases "tiles_dates_inner api parse qk lk tile dates products w0")
    from tiles_dates_inner_frame[OF b] obtain new1 where n1:
      "next_addr w0 \<le> next_addr w1"
      "\<forall>a<next_addr w0. heap w1 a = heap w0 a"
      "files w1 = files w0"
      "trace w1 = trace w0 @ new1"
      "qk < next_addr w0 \<longrightarrow> (\<forall>kw\<in>set (query_args new1). \<exists>date\<in>set dates. (\<exists>s e b. parse date = Inr s \<and> add_days s 1 = Inr e
                  \<and> dt_lt s (mk_datetime 2016 11 1) = Inr False
                  \<and> dt_lt s (mk_datetime 2017 3 31) = Inr b
                  \<and> kw = (if b then setitem ''filename'' (PStr (''*_T'' @ tile @ ''_*''))
                           else setitem ''tileid'' (PStr tile))
                            (setitem ''date'' (PDates s e) (heap w0 qk))))"
      "\<forall>p. r1 = Inr p \<longrightarrow> p = dict_update products (concat (answers new1))"
      by blast
    have tr1: "trace w1 = trace w @ ev # new1" using n1(4) w0(4) by simp
    have an1: "answers (ev # new1) = answers new1" "query_args (ev # new1) = query_args new1"
      by (simp_all add: ev_def)
    have q1: "qk < next_addr w \<longrightarrow> (\<forall>kw\<in>set (query_args new1). \<exists>tile\<in>set (tile # tiles). \<exists>dates. map_of td tile = Some dates \<and> (\<exists>date\<in>set dates. (\<exists>s e b. parse date = Inr s \<and> add_days s 1 = Inr e
                  \<and> dt_lt s (mk_datetime 2016 11 1) = Inr False
                  \<and> dt_lt s (mk_datetime 2017 3 31) = Inr b
                  \<and> kw = (if b then setitem ''filename'' (PStr (''*_T'' @ tile @ ''_*''))
                           else setitem ''tileid'' (PStr tile))
                            (setitem ''date'' (PDates s e) (heap w qk)))))"
      using n1(5) w0(1,2) Some by auto
    show ?thesis
    proof (cases r1)
      case (Inl err)
      with Cons.prems b Some have "r = Inl err" "w' = w1"
        by (simp_all add: w0_def ev_def Let_def)
      with n1 w0 tr1 an1 q1 show ?thesis by (intro exI[of _ "ev # new1"]) auto
    next
      case (Inr p1)
      with Cons.prems b Some
      have rec: "tiles_dates_outer api parse td qk lk tiles p1 w1 = (r, w')"
        by (simp add: w0_def ev_def Let_def)
      from Cons.IH[OF rec] obtain new2 where n2:
        "next_addr w1 \<le> next_addr w'"
        "\<forall>a<next_addr w1. heap w' a = heap w1 a"
        "files w' = files w1"
        "trace w' = trace w1 @ new2"
        "qk < next_addr w1 \<longrightarrow>
            (\<forall>kw\<in>set (query_args new2). \<exists>tile\<in>set tiles. \<exists>dates. map_of td tile = Some dates \<and> (\<exists>date\<in>set dates. (\<exists>s e b. parse date = Inr s \<and> add_days s 1 = Inr e
                  \<and> dt_lt s (mk_datetime 2016 11 1) = Inr False
                  \<and> dt_lt s (mk_datetime 2017 3 31) = Inr b
                  \<and> kw = (if b then setitem ''filename'' (PStr (''*_T'' @ tile @ ''_*''))
                           else setitem ''tileid'' (PStr tile))
                            (setitem ''date'' (PDates s e) (heap w1 qk)))))"
        "\<forall>p. r = Inr p \<longrightarrow> p = dict_update p1 (concat (answers new2))"
        by blast
      have p1: "p1 = dict_update products (concat (answers new1))"
        using n1(6) Inr by simp
      show ?thesis
      proof (intro exI[of _ "(ev # new1) @ new2"] conjI)
        show "next_addr w \<le> next_addr w'" using n1(1) n2(1) w0(1) by simp
        show "\<forall>a<next_addr w. heap w' a = heap w a" using n1(1,2) n2(2) w0(1,2) by simp
        show "files w' = files w" using n1(3) n2(3) w0(3) by simp
        show "trace w' = trace w @ (ev # new1) @ new2" using tr1 n2(4) by simp
        show "qk < next_addr w \<longrightarrow>
            (\<forall>kw\<in>set (query_args ((ev # new1) @ new2)). \<exists>tile\<in>set (tile # tiles). \<exists>dates. map_of td tile = Some dates \<and> (\<exists>date\<in>set dates. (\<exists>s e b. parse date = Inr s \<and> add_days s 1 = Inr e
                  \<and> dt_lt s (mk_datetime 2016 11 1) = Inr False
                  \<and> dt_lt s (mk_datetime 2017 3 31) = Inr b
                  \<and> kw = (if b then setitem ''filename'' (PStr (''*_T'' @ tile @ ''_*''))
                           else setitem ''tileid'' (PStr tile))
                            (setitem ''date'' (PDates s e) (heap w qk)))))"
        proof (intro impI ballI)
          fix kw assume qk: "qk < next_addr w" and kw: "kw \<in> set (query_args ((ev # new1) @ new2))"
          have h: "heap w1 qk = heap w qk" using qk n1(2) w0(1,2) by simp
          have qk1: "qk < next_addr w1" using qk n1(1) w0(1) by simp
          from kw have "kw \<in> set (query_args new1) \<or> kw \<in> set (query_args new2)"
            by (simp add: ev_def)
          then show "\<exists>tile\<in>set (tile # tiles). \<exists>dates. map_of td tile = Some dates \<and> (\<exists>date\<in>set dates. (\<exists>s e b. parse date = Inr s \<and> add_days s 1 = Inr e
                  \<and> dt_lt s (mk_datetime 2016 11 1) = Inr False
                  \<and> dt_lt s (mk_datetime 2017 3 31) = Inr b
                  \<and> kw = (if b then setitem ''filename'' (PStr (''*_T'' @ tile @ ''_*''))
                           else setitem ''tileid'' (PStr tile))
                            (setitem ''date'' (PDates s e) (heap w qk))))"
          proof
            assume "kw \<in> set (query_args new1)"
            with q1 qk show ?thesis by blast
          next
            assume "kw \<in> set (query_args new2)"
            with n2(5) qk1 have "\<exists>tile\<in>set tiles. \<exists>dates. map_of td tile = Some dates \<and> (\<exists>date\<in>set dates. (\<exists>s e b. parse date = Inr s \<and> add_days s 1 = Inr e
                  \<and> dt_lt s (mk_datetime 2016 11 1) = Inr False
                  \<and> dt_lt s (mk_datetime 2017 3 31) = Inr b
                  \<and> kw = (if b then setitem ''filename'' (PStr (''*_T'' @ tile @ ''_*''))
                           else setitem ''tileid'' (PStr tile))
                            (setitem ''date'' (PDates s e) (heap w1 qk))))" by blast
            then show ?thesis unfolding h by auto
          qed
        qed
        show "\<forall>p. r = Inr p \<longrightarrow> p = dict_update products (concat (answers ((ev # new1) @ new2)))"
          using n2(6) p1 by (simp add: dict_update_append ev_def)
      qed
    qed
  qed
qed

text \<open>Facts for running the aggregators on the concrete inputs.\<close>

lemma loop_query_kw_default:
  "loop_query_kw api kw no_loop_kwargs w
     = loop_query_from api kw (Some 5) (Suc (Suc (Suc (Suc (Suc 0))))) None w"
  by (simp add: loop_query_kw_def loop_query_def no_loop_kwargs_def eval_nat_numeral)

lemma mk_datetime_examples:
  "mk_datetime 2016 6 1 = \<lparr>ordinal = 736116, usec = 0, utcoffset = None\<rparr>"
  "mk_datetime 2017 1 15 = \<lparr>ordinal = 736344, usec = 0, utcoffset = None\<rparr>"
  "mk_datetime 2017 6 1 = \<lparr>ordinal = 736481, usec = 0, utcoffset = None\<rparr>"
  by (simp_all add: mk_datetime_def ymd2ord_def days_before_year_def days_before_month_def is_leap_def)


lemmas run_defs = dict_copy_def dict_setitem_def loop_query_kw_default
  api_query_def emit_def scripted_api_def world0_def
  example_parse_def add_days_def MAXORDINAL_def dt_lt_def
  mk_datetime_examples mk_datetime_2016_11_1 mk_datetime_2017_3_31
  Let_def events_since_def base_kwargs_def merge_script_def

section \<open>Properties of the aggregators\<close>








lemma query_tiles_dates_frame:
  assumes qk: "qk < next_addr w"
  shows "(\<forall>a<next_addr w. heap (snd (query_tiles_dates api parse td qk lk w)) a = heap w a)
    \<and> (\<forall>kw\<in>set (query_args (events_since w (snd (query_tiles_dates api parse td qk lk w)))).
         \<exists>tile dates date s e b. (tile, dates) \<in> set td \<and> date \<in> set dates
            \<and> parse date = Inr s \<and> add_days s 1 = Inr e
            \<and> dt_lt s (mk_datetime 2016 11 1) = Inr False
            \<and> dt_lt s (mk_datetime 2017 3 31) = Inr b
            \<and> kw = (if b then setitem ''filename'' (PStr (''*_T'' @ tile @ ''_*''))
                     else setitem ''tileid'' (PStr tile))
                      (setitem ''date'' (PDates s e) (heap w qk)))"
proof -
  obtain r w' where run: "query_tiles_dates api parse td qk lk w = (r, w')"
    by (cases "query_tiles_dates api parse td qk lk w")
  from tiles_dates_outer_frame[OF run[unfolded query_tiles_dates_def]] qk
  obtain new where new: "\<forall>a<next_addr w. heap w' a = heap w a" "trace w' = trace w @ new"
    "\<forall>kw\<in>set (query_args new). \<exists>tile\<in>set (map fst td). \<exists>dates. map_of td tile = Some dates \<and>
        (\<exists>date\<in>set dates. (\<exists>s e b. parse date = Inr s \<and> add_days s 1 = Inr e
                  \<and> dt_lt s (mk_datetime 2016 11 1) = Inr False
                  \<and> dt_lt s (mk_datetime 2017 3 31) = Inr b
                  \<and> kw = (if b then setitem ''filename'' (PStr (''*_T'' @ tile @ ''_*''))
                           else setitem ''tileid'' (PStr tile))
                            (setitem ''date'' (PDates s e) (heap w qk))))"
    by blast
  have ev: "events_since w w' = new" by (simp add: events_since_def new(2))
  have "\<forall>kw\<in>set (query_args new).
         \<exists>tile dates date s e b. (tile, dates) \<in> set td \<and> date \<in> set dates
            \<and> parse date = Inr s \<and> add_days s 1 = Inr e
            \<and> dt_lt s (mk_datetime 2016 11 1) = Inr False
            \<and> dt_lt s (mk_datetime 2017 3 31) = Inr b
            \<and> kw = (if b then setitem ''filename'' (PStr (''*_T'' @ tile @ ''_*''))
                     else setitem ''tileid'' (PStr tile))
                      (setitem ''date'' (PDates s e) (heap w qk))"
  proof
    fix kw assume "kw \<in> set (query_args new)"
    with new(3) obtain tile dates date s e b where
      "map_of td tile = Some dates" "date \<in> set dates" "parse date = Inr s" "add_days s 1 = Inr e"
      "dt_lt s (mk_datetime 2016 11 1) = Inr False" "dt_lt s (mk_datetime 2017 3 31) = Inr b"
      "kw = (if b then setitem ''filename'' (PStr (''*_T'' @ tile @ ''_*''))
                     else setitem ''tileid'' (PStr tile))
                      (setitem ''date'' (PDates s e) (heap w qk))"
      by blast
    moreover from this(1) have "(tile, dates) \<in> set td" by (rule map_of_SomeD)
    ultimately show "\<exists>tile dates date s e b. (tile, dates) \<in> set td \<and> date \<in> set dates
            \<and> parse date = Inr s \<and> add_days s 1 = Inr e
            \<and> dt_lt s (mk_datetime 2016 11 1) = Inr False
            \<and> dt_lt s (mk_datetime 2017 3 31) = Inr b
            \<and> kw = (if b then setitem ''filename'' (PStr (''*_T'' @ tile @ ''_*''))
                     else setitem ''tileid'' (PStr tile))
                      (setitem ''date'' (PDates s e) (heap w qk))"
      by blast
  qed
  with new(1) show ?thesis by (simp add: run ev)
qed

lemma query_dates_frame:
  assumes qk: "qk < next_addr w"
  shows "(\<forall>a<next_addr w. heap (snd (query_dates api parse dates qk lk w)) a = heap w a)
    \<and> (\<forall>kw\<in>set (query_args (events_since w (snd (query_dates api parse dates qk lk w)))).
         \<exists>date s e. date \<in> set dates \<and> parse date = Inr s \<and> add_days s 1 = Inr e
            \<and> kw = setitem ''date'' (PDates s e) (heap w qk))"
proof -
  obtain r w' where run: "query_dates api parse dates qk lk w = (r, w')"
    by (cases "query_dates api parse dates qk lk w")
  from query_dates_from_frame[OF run[unfolded query_dates_def]] qk
  obtain new where new: "\<forall>a<next_addr w. heap w' a = heap w a" "trace w' = trace w @ new"
    "\<forall>kw\<in>set (query_args new). \<exists>date\<in>set dates. (\<exists>s e. parse date = Inr s \<and> add_days s 1 = Inr e
                  \<and> kw = setitem ''date'' (PDates s e) (heap w qk))"
    by blast
  have ev: "events_since w w' = new" by (simp add: events_since_def new(2))
  from new(3) have "\<forall>kw\<in>set (query_args new).
         \<exists>date s e. date \<in> set dates \<and> parse date = Inr s \<and> add_days s 1 = Inr e
            \<and> kw = setitem ''date'' (PDates s e) (heap w qk)"
    by blast
  with new(1) show ?thesis by (simp add: run ev)
qed

lemma query_rel_orbit_numbers_frame:
  assumes qk: "qk < next_addr w"
  shows "(\<forall>a<next_addr w. heap (snd (query_rel_orbit_numbers api rons qk lk w)) a = heap w a)
    \<and> (\<forall>kw\<in>set (query_args (events_since w (snd (query_rel_orbit_numbers api rons qk lk w)))).
         \<exists>ron. ron \<in> set rons
            \<and> kw = setitem ''relativeorbitnumber'' (PStr (str_int ron)) (heap w qk))"
proof -
  obtain r w' where run: "query_rel_orbit_numbers api rons qk lk w = (r, w')"
    by (cases "query_rel_orbit_numbers api rons qk lk w")
  from query_rel_orbit_numbers_from_frame[OF run[unfolded query_rel_orbit_numbers_def]] qk
  obtain new where new: "\<forall>a<next_addr w. heap w' a = heap w a" "trace w' = trace w @ new"
    "\<forall>kw\<in>set (query_args new). \<exists>ron\<in>set rons.
                kw = setitem ''relativeorbitnumber'' (PStr (str_int ron)) (heap w qk)"
    by blast
  have ev: "events_since w w' = new" by (simp add: events_since_def new(2))
  from new(3) have "\<forall>kw\<in>set (query_args new).
         \<exists>ron. ron \<in> set rons
            \<and> kw = setitem ''relativeorbitnumber'' (PStr (str_int ron)) (heap w qk)"
    by blast
  with new(1) show ?thesis by (simp add: run ev)
qed

text \<open>
  Claim C8. Let \<open>query_kwargs\<close> be an allocated dictionary. After a call of
  \<open>query_tiles_dates\<close>, \<open>query_dates\<close> or \<open>query_rel_orbit_numbers\<close>, whether it returned
  or raised, every dictionary that was allocated before the call holds what it held, the
  base mapping \<open>query_kwargs\<close> among them. Every call of the query operation got the base
  mapping as it was before the call, with the entries of one iteration set on it and
  nothing of any other iteration: the date range, and the file name pattern or the tile
  id of its own tile and date; the date range of its own date; the orbit number of its
  own item.
\<close>

theorem aggregators_keep_base_params:
  assumes "query_kwargs < next_addr w"
  shows "(\<forall>a<next_addr w.
            heap (snd (query_tiles_dates api parse tiles_dates query_kwargs lk w)) a = heap w a)
    \<and> (\<forall>kw\<in>set (query_args (events_since w
                   (snd (query_tiles_dates api parse tiles_dates query_kwargs lk w)))).
         \<exists>tile dates date s e b. (tile, dates) \<in> set tiles_dates \<and> date \<in> set dates
            \<and> parse date = Inr s \<and> add_days s 1 = Inr e
            \<and> dt_lt s (mk_datetime 2016 11 1) = Inr False
            \<and> dt_lt s (mk_datetime 2017 3 31) = Inr b
            \<and> kw = (if b then setitem ''filename'' (PStr (''*_T'' @ tile @ ''_*''))
                     else setitem ''tileid'' (PStr tile))
                      (setitem ''date'' (PDates s e) (heap w query_kwargs)))
    \<and> (\<forall>a<next_addr w.
            heap (snd (query_dates api parse dates query_kwargs lk w)) a = heap w a)
    \<and> (\<forall>kw\<in>set (query_args (events_since w
                   (snd (query_dates api parse dates query_kwargs lk w)))).
         \<exists>date s e. date \<in> set dates \<and> parse date = Inr s \<and> add_days s 1 = Inr e
            \<and> kw = setitem ''date'' (PDates s e) (heap w query_kwargs))
    \<and> (\<forall>a<next_addr w.
            heap (snd (query_rel_orbit_numbers api rel_orbit_numbers query_kwargs lk w)) a
              = heap w a)
    \<and> (\<forall>kw\<in>set (query_args (events_since w
                   (snd (query_rel_orbit_numbers api rel_orbit_numbers query_kwargs lk w)))).
         \<exists>ron. ron \<in> set rel_orbit_numbers
            \<and> kw = setitem ''relativeorbitnumber'' (PStr (str_int ron)) (heap w query_kwargs))"
  using query_tiles_dates_frame[OF assms, of api parse tiles_dates lk]
    query_dates_frame[OF assms, of api parse dates lk]
    query_rel_orbit_numbers_frame[OF assms, of api rel_orbit_numbers lk]
  by (intro conjI) blast+

theorem aggregators_keep_base_params_witness:
  "0 < next_addr (world0 merge_script)
   \<and> heap (snd (query_tiles_dates scripted_api example_parse
               [(''31TCJ'', [''2017-01-15'', ''2017-06-01''])] 0 no_loop_kwargs
               (world0 merge_script))) 0 = base_kwargs
   \<and> query_args (events_since (world0 merge_script)
        (snd (query_tiles_dates scripted_api example_parse
               [(''31TCJ'', [''2017-01-15'', ''2017-06-01''])] 0 no_loop_kwargs
               (world0 merge_script))))
     = [[(''platformname'', PStr ''Sentinel-2''),
         (''date'', PDates \<lparr>ordinal = 736344, usec = 0, utcoffset = None\<rparr>
                           \<lparr>ordinal = 736345, usec = 0, utcoffset = None\<rparr>),
         (''filename'', PStr ''*_T31TCJ_*'')],
        [(''platformname'', PStr ''Sentinel-2''),
         (''date'', PDates \<lparr>ordinal = 736481, usec = 0, utcoffset = None\<rparr>
                           \<lparr>ordinal = 736482, usec = 0, utcoffset = None\<rparr>),
         (''tileid'', PStr ''31TCJ'')]]"
proof -
  let ?w = "world0 merge_script"
  let ?run = "query_tiles_dates scripted_api example_parse
               [(''31TCJ'', [''2017-01-15'', ''2017-06-01''])] 0 no_loop_kwargs ?w"
  have h: "0 < next_addr ?w" by (simp add: world0_def)
  have "\<forall>a<next_addr ?w. heap (snd ?run) a = heap ?w a"
    using aggregators_keep_base_params[where query_kwargs = 0 and w = ?w and api = scripted_api
        and parse = example_parse and tiles_dates = "[(''31TCJ'', [''2017-01-15'', ''2017-06-01''])]"
        and lk = no_loop_kwargs, OF h]
    by blast
  with h have "heap (snd ?run) 0 = heap ?w 0" by blast
  then have base: "heap (snd ?run) 0 = base_kwargs" by (simp add: world0_def)
  have q: "query_args (events_since ?w (snd ?run))
     = [[(''platformname'', PStr ''Sentinel-2''),
         (''date'', PDates \<lparr>ordinal = 736344, usec = 0, utcoffset = None\<rparr>
                           \<lparr>ordinal = 736345, usec = 0, utcoffset = None\<rparr>),
         (''filename'', PStr ''*_T31TCJ_*'')],
        [(''platformname'', PStr ''Sentinel-2''),
         (''date'', PDates \<lparr>ordinal = 736481, usec = 0, utcoffset = None\<rparr>
                           \<lparr>ordinal = 736482, usec = 0, utcoffset = None\<rparr>),
         (''tileid'', PStr ''31TCJ'')]]"
    by (simp add: run_defs query_tiles_dates_def tiles_dates_body_def)
  from h base q show ?thesis by blast
qed













section \<open>Properties of \<open>delete_empty\<close>\<close>

lemma removals_append [simp]: "removals (xs @ ys) = removals xs @ removals ys"
  by (induction xs rule: removals.induct) simp_all

lemma warnings_append [simp]: "warnings (xs @ ys) = warnings xs @ warnings ys"
  by (induction xs rule: warnings.induct) simp_all

lemma map_of_filter_other:
  "q \<noteq> p \<Longrightarrow> map_of (filter (\<lambda>f. fst f \<noteq> p) fs) q = map_of fs q"
  by (induction fs) auto

text \<open>The removals and warnings that the recorded paths call for, given the files.\<close>

lemma delete_empty_from_run:
  assumes "\<forall>key\<in>set keys. \<exists>p. path_of results key = Some p \<and> map_of fs p \<noteq> None"
    and "distinct (List.map_filter (path_of results) keys)"
    and "\<forall>p\<in>set (List.map_filter (path_of results) keys). map_of (files w) p = map_of fs p"
  shows "\<exists>new. fst (delete_empty_from keys results w) = Inr ()
           \<and> trace (snd (delete_empty_from keys results w)) = trace w @ new
           \<and> removals new
               = concat (map (\<lambda>p. case map_of fs p of
                                     Some (sz, rm) \<Rightarrow> if sz = 0 then [(p, rm)] else []
                                   | None \<Rightarrow> [])
                             (List.map_filter (path_of results) keys))
           \<and> warnings new
               = map (\<lambda>p. [''Download produced empty file: '%s' that could not be deleted.'', p])
                   (filter (\<lambda>p. map_of fs p = Some (0, False))
                      (List.map_filter (path_of results) keys))"
  using assms
proof (induction keys arbitrary: w)
  case Nil
  show ?case by (intro exI[of _ "[]"]) (simp add: List.map_filter_simps)
next
  case (Cons key keys)
  let ?fmt = "''Download produced empty file: '%s' that could not be deleted.''"
  from Cons.prems(1) obtain p where p: "path_of results key = Some p" "map_of fs p \<noteq> None"
    by auto
  then obtain md where md: "map_of results key = Some md" "map_of md ''path'' = Some p"
    by (auto simp: path_of_def split: option.splits)
  obtain sz rm where f: "map_of fs p = Some (sz, rm)" using p(2) by (cases "map_of fs p") auto
  have paths: "List.map_filter (path_of results) (key # keys)
      = p # List.map_filter (path_of results) keys"
    by (simp add: List.map_filter_simps p)
  have fw: "map_of (files w) p = Some (sz, rm)"
    using Cons.prems(3)[unfolded paths] f by simp
  have notin: "p \<notin> set (List.map_filter (path_of results) keys)"
    and dist: "distinct (List.map_filter (path_of results) keys)"
    using Cons.prems(2)[unfolded paths] by simp_all
  have keys: "\<forall>key\<in>set keys. \<exists>p. path_of results key = Some p \<and> map_of fs p \<noteq> None"
    using Cons.prems(1) by simp
  have same: "\<forall>q\<in>set (List.map_filter (path_of results) keys). map_of (files w) q = map_of fs q"
    using Cons.prems(3)[unfolded paths] by simp
  show ?case
  proof (cases "sz = 0")
    case False
    have step: "delete_empty_from (key # keys) results w = delete_empty_from keys results w"
      using md fw False by (simp add: getsize_def)
    from Cons.IH[OF keys dist same] obtain new where
      "fst (delete_empty_from keys results w) = Inr ()"
      "trace (snd (delete_empty_from keys results w)) = trace w @ new"
      "removals new = concat (map (\<lambda>p. case map_of fs p of
                                     Some (sz, rm) \<Rightarrow> if sz = 0 then [(p, rm)] else []
                                   | None \<Rightarrow> [])
                             (List.map_filter (path_of results) keys))"
      "warnings new = map (\<lambda>p. [?fmt, p])
                   (filter (\<lambda>p. map_of fs p = Some (0, False))
                      (List.map_filter (path_of results) keys))"
      by blast
    then show ?thesis
      unfolding step paths using f False by (intro exI[of _ new]) simp
  next
    case True
    show ?thesis
    proof (cases rm)
      case True
      define w1 where "w1 = emit (EvRemove p True) (w\<lparr>files := filter (\<lambda>f. fst f \<noteq> p) (files w)\<rparr>)"
      have step: "delete_empty_from (key # keys) results w = delete_empty_from keys results w1"
        using md fw \<open>sz = 0\<close> True by (simp add: getsize_def os_remove_def w1_def)
      have tr1: "trace w1 = trace w @ [EvRemove p True]" by (simp add: w1_def emit_def)
      have same1: "\<forall>q\<in>set (List.map_filter (path_of results) keys). map_of (files w1) q = map_of fs q"
      proof
        fix q assume q: "q \<in> set (List.map_filter (path_of results) keys)"
        with notin have "q \<noteq> p" by auto
        then have "map_of (files w1) q = map_of (files w) q"
          by (simp add: w1_def emit_def map_of_filter_other)
        with same q show "map_of (files w1) q = map_of fs q" by simp
      qed
      from Cons.IH[OF keys dist same1] obtain new where new:
        "fst (delete_empty_from keys results w1) = Inr ()"
        "trace (snd (delete_empty_from keys results w1)) = trace w1 @ new"
        "removals new = concat (map (\<lambda>p. case map_of fs p of
                                     Some (sz, rm) \<Rightarrow> if sz = 0 then [(p, rm)] else []
                                   | None \<Rightarrow> [])
                             (List.map_filter (path_of results) keys))"
        "warnings new = map (\<lambda>p. [?fmt, p])
                   (filter (\<lambda>p. map_of fs p = Some (0, False))
                      (List.map_filter (path_of results) keys))"
        by blast
      show ?thesis
        unfolding step paths using new tr1 f \<open>sz = 0\<close> True
        by (intro exI[of _ "EvRemove p True # new"]) simp
    next
      case False
      define w1 where "w1 = emit (EvWarn [?fmt, p]) (emit (EvRemove p False) w)"
      have step: "delete_empty_from (key # keys) results w = delete_empty_from keys results w1"
        using md fw \<open>sz = 0\<close> False by (simp add: getsize_def os_remove_def w1_def)
      have tr1: "trace w1 = trace w @ [EvRemove p False, EvWarn [?fmt, p]]"
        by (simp add: w1_def emit_def)
      have same1: "\<forall>q\<in>set (List.map_filter (path_of results) keys). map_of (files w1) q = map_of fs q"
        using same by (simp add: w1_def emit_def)
      from Cons.IH[OF keys dist same1] obtain new where new:
        "fst (delete_empty_from keys results w1) = Inr ()"
        "trace (snd (delete_empty_from keys results w1)) = trace w1 @ new"
        "removals new = concat (map (\<lambda>p. case map_of fs p of
                                     Some (sz, rm) \<Rightarrow> if sz = 0 then [(p, rm)] else []
                                   | None \<Rightarrow> [])
                             (List.map_filter (path_of results) keys))"
        "warnings new = map (\<lambda>p. [?fmt, p])
                   (filter (\<lambda>p. map_of fs p = Some (0, False))
                      (List.map_filter (path_of results) keys))"
        by blast
      show ?thesis
        unfolding step paths using new tr1 f \<open>sz = 0\<close> False
        by (intro exI[of _ "EvRemove p False # EvWarn [?fmt, p] # new"]) simp
    qed
  qed
qed

text \<open>
  Claim C9. Let every entry of the result collection record the path of a file that
  exists, no two entries the same path. Then \<open>delete_empty\<close> returns without raising,
  whether or not a removal fails. It calls \<open>os.remove\<close> exactly on the recorded paths
  whose file has size zero, in the order of the collection, and on no other path; and it
  logs one warning for each of these removals that fails, after which it goes on with the
  entries that follow.
\<close>

theorem delete_empty_removes_empty_files:
  assumes "\<forall>key\<in>set (map fst results).
             \<exists>p. path_of results key = Some p \<and> map_of (files w) p \<noteq> None"
    and "distinct (recorded_paths results)"
  shows "fst (delete_empty results w) = Inr ()
     \<and> removals (events_since w (snd (delete_empty results w)))
         = concat (map (\<lambda>p. case map_of (files w) p of
                               Some (sz, rm) \<Rightarrow> if sz = 0 then [(p, rm)] else []
                             | None \<Rightarrow> [])
                       (recorded_paths results))
     \<and> warnings (events_since w (snd (delete_empty results w)))
         = map (\<lambda>p. [''Download produced empty file: '%s' that could not be deleted.'', p])
             (filter (\<lambda>p. map_of (files w) p = Some (0, False)) (recorded_paths results))"
proof -
  from delete_empty_from_run[of "map fst results" results "files w" w] assms
  obtain new where new:
    "fst (delete_empty_from (map fst results) results w) = Inr ()"
    "trace (snd (delete_empty_from (map fst results) results w)) = trace w @ new"
    "removals new
       = concat (map (\<lambda>p. case map_of (files w) p of
                               Some (sz, rm) \<Rightarrow> if sz = 0 then [(p, rm)] else []
                             | None \<Rightarrow> [])
                     (List.map_filter (path_of results) (map fst results)))"
    "warnings new
       = map (\<lambda>p. [''Download produced empty file: '%s' that could not be deleted.'', p])
           (filter (\<lambda>p. map_of (files w) p = Some (0, False))
              (List.map_filter (path_of results) (map fst results)))"
    unfolding recorded_paths_def by blast
  have "events_since w (snd (delete_empty results w)) = new"
    by (simp add: events_since_def delete_empty_def new(2))
  with new(1,3,4) show ?thesis
    by (simp add: delete_empty_def recorded_paths_def)
qed

theorem delete_empty_removes_empty_files_witness:
  "distinct (recorded_paths cleanup_results)
   \<and> fst (delete_empty cleanup_results cleanup_world) = Inr ()
   \<and> removals (events_since cleanup_world (snd (delete_empty cleanup_results cleanup_world)))
       = [(''a.zip'', False), (''c.zip'', True)]
   \<and> warnings (events_since cleanup_world (snd (delete_empty cleanup_results cleanup_world)))
       = [[''Download produced empty file: '%s' that could not be deleted.'', ''a.zip'']]
   \<and> files (snd (delete_empty cleanup_results cleanup_world))
       = [(''a.zip'', 0, False), (''b.zip'', 1024, True)]"
proof -
  have paths: "recorded_paths cleanup_results = [''a.zip'', ''b.zip'', ''c.zip'']"
    by (simp add: recorded_paths_def path_of_def cleanup_results_def List.map_filter_simps)
  have h1: "\<forall>key\<in>set (map fst cleanup_results).
             \<exists>p. path_of cleanup_results key = Some p \<and> map_of (files cleanup_world) p \<noteq> None"
    by (auto simp: path_of_def cleanup_results_def cleanup_world_def)
  have h2: "distinct (recorded_paths cleanup_results)"
    by (simp add: paths)
  note t = delete_empty_removes_empty_files[OF h1 h2, unfolded paths]
  have r: "fst (delete_empty cleanup_results cleanup_world) = Inr ()"
    using t by blast
  have rm: "removals (events_since cleanup_world (snd (delete_empty cleanup_results cleanup_world)))
       = [(''a.zip'', False), (''c.zip'', True)]"
    using t by (simp add: cleanup_world_def)
  have wn: "warnings (events_since cleanup_world (snd (delete_empty cleanup_results cleanup_world)))
       = [[''Download produced empty file: '%s' that could not be deleted.'', ''a.zip'']]"
    using t by (simp add: cleanup_world_def)
  have fs: "files (snd (delete_empty cleanup_results cleanup_world))
       = [(''a.zip'', 0, False), (''b.zip'', 1024, True)]"
    by (simp add: delete_empty_def cleanup_results_def cleanup_world_def getsize_def
        os_remove_def emit_def)
  from h2 r rm wn fs show ?thesis by blast
qed

end
